theory Spec2Isabelle
  imports Main "HOL-Library.Word" "HOL-Library.Signed_Division"
begin

section \<open>The redis-backed leaky bucket of src/redis/redis.go\<close>

text \<open>
  The embedding follows the Go source function by function.

  \<^item> \<open>uint\<close> and \<open>uint64\<close> are \<open>64 word\<close> (a 64-bit platform, where the conversion
    \<open>uint(count)\<close> of a \<open>uint64\<close> is the identity); \<open>int64\<close>, \<open>int\<close> and
    \<open>time.Duration\<close> are \<open>64 word\<close> read with \<open>sint\<close>; \<open>*\<close> on them wraps around.
  \<^item> \<open>time.Time\<close> is an \<open>int\<close>: nanoseconds since the Unix epoch. \<open>t.Add(d)\<close> is
    \<open>t + sint d\<close> and \<open>t.Unix()\<close> is \<open>t div 10^9\<close> (whole seconds, rounded down).
  \<^item> The redis connection is a parameter: a \<open>store\<close> over a state \<open>'w\<close> of the outside
    world (the server's keys and the wall clock), of which nothing is assumed. Every
    command may answer anything, fail with any error, and change the world, its clock
    included.
  \<^item> Every function takes and returns an \<open>env\<close>: the world together with the list of the
    store commands issued so far and their answers. The list is an observer only; no
    function reads it.
\<close>

subsection \<open>Data\<close>

type_synonym uint = "64 word"
type_synonym int64 = "64 word"
type_synonym time = int

datatype error = ErrNil | ErrorFull | StoreError string

text \<open>The four commands the source sends, with their arguments.\<close>

datatype cmd =
    GET string
  | INCRBY string uint
  | PEXPIRE string int64
  | PTTL string

text \<open>
  \<open>exec c w\<close> is the answer of \<open>conn.DoContext(ctx, c...)\<close> in world \<open>w\<close>, and the world
  after it. The answer is typed, as the store contract of the specification gives it
  (section 6): an error (\<open>redis.ErrNil\<close> for a missing key under \<open>redis.Uint64\<close>), or a
  64-bit integer, which is the \<open>uint64\<close> of \<open>redis.Uint64\<close> for GET and INCRBY and the
  \<open>int64\<close> integer reply for PTTL and PEXPIRE. So the reply that \<open>updateOldReset\<close>
  asserts to be an \<open>int64\<close> (\<open>ttl.(int64)\<close>) is one, as every integer reply of the
  client library is, and \<open>redis.Int64\<close> in \<open>Create\<close> hands the same integer over.
  Getting and closing the connection are part of the store and change nothing the
  source reads. \<open>now w\<close> is \<open>time.Now()\<close>.
\<close>

record 'w store =
  now :: "'w \<Rightarrow> time"
  exec :: "cmd \<Rightarrow> 'w \<Rightarrow> (error + 64 word) \<times> 'w"

record 'w env =
  world :: 'w
  trace :: "(cmd \<times> (error + 64 word)) list"

record bucket =
  name :: string
  capacity :: uint
  remaining :: uint
  reset :: time
  rate :: int64

record bucket_state =
  Capacity :: uint
  Remaining :: uint
  Reset :: time

subsection \<open>Helpers of the Go runtime\<close>

definition time_Add :: "time \<Rightarrow> int64 \<Rightarrow> time" where
  "time_Add t d = t + sint d"

definition Unix :: "time \<Rightarrow> int" where
  "Unix t = t div 1000000000"

text \<open>Go's \<open>/\<close> on \<open>int64\<close>: the quotient truncated towards zero.\<close>

definition div_int64 :: "int64 \<Rightarrow> int64 \<Rightarrow> int64" where
  "div_int64 a b = word_of_int (sint a sdiv sint b)"

definition call :: "'w store \<Rightarrow> cmd \<Rightarrow> 'w env \<Rightarrow> (error + 64 word) \<times> 'w env" where
  "call st c e =
     (case exec st c (world e) of
        (r, w') \<Rightarrow> (r, \<lparr>world = w', trace = trace e @ [(c, r)]\<rparr>))"

subsection \<open>The source\<close>

definition State :: "bucket \<Rightarrow> bucket_state" where
  "State b = \<lparr>Capacity = capacity b, Remaining = remaining b, Reset = reset b\<rparr>"

definition millisecond :: int64 where
  "millisecond = 1000000"

definition min_uint :: "uint \<Rightarrow> uint \<Rightarrow> uint" where
  "min_uint a b = (if a < b then a else b)"

text \<open>
  \<open>updateOldReset\<close> returns the bucket it has updated and its \<open>error\<close> result
  (\<open>None\<close> is \<open>nil\<close>).
\<close>

definition updateOldReset ::
  "'w store \<Rightarrow> bucket \<Rightarrow> 'w env \<Rightarrow> (bucket \<times> error option) \<times> 'w env" where
  "updateOldReset st b e =
     (if Unix (reset b) > Unix (now st (world e)) then ((b, None), e)
      else
        (case call st (PTTL (name b)) e of
           (Inl err, e') \<Rightarrow> ((b, Some err), e')
         | (Inr ttl, e') \<Rightarrow>
             ((b\<lparr>reset := time_Add (now st (world e')) (ttl * millisecond)\<rparr>, None), e')))"

text \<open>
  \<open>Add\<close>, in three parts: \<open>Add_finish\<close> is lines 89 to 93 of the source (the refresh of
  reset and the new remaining), \<open>Add_admit\<close> lines 72 to 87 (the admission test, INCRBY
  and PEXPIRE), \<open>Add\<close> itself lines 61 to 70 (the read of the counter). The result is the
  bucket after the call (the receiver is mutated in place), the returned
  \<open>BucketState\<close> and the returned \<open>error\<close>.
\<close>

type_synonym 'w add_result = "(bucket \<times> bucket_state \<times> error option) \<times> 'w env"

definition Add_finish :: "'w store \<Rightarrow> bucket \<Rightarrow> uint \<Rightarrow> 'w env \<Rightarrow> 'w add_result" where
  "Add_finish st b count e =
     (case updateOldReset st b e of
        ((b', _), e') \<Rightarrow>
          (let b'' = b'\<lparr>remaining := capacity b' - min_uint count (capacity b')\<rparr>
           in ((b'', State b'', None), e')))"

definition Add_admit :: "'w store \<Rightarrow> bucket \<Rightarrow> uint \<Rightarrow> 'w env \<Rightarrow> 'w add_result" where
  "Add_admit st b amount e =
     (if amount > remaining b then
        (case updateOldReset st b e of
           ((b', _), e') \<Rightarrow> ((b', State b', Some ErrorFull), e'))
      else
        (let expiry = div_int64 (rate b) millisecond in
         (case call st (INCRBY (name b) amount) e of
            (Inl err, e') \<Rightarrow> ((b, State b, Some err), e')
          | (Inr count, e') \<Rightarrow>
              (if count = amount then
                 (case call st (PEXPIRE (name b) expiry) e' of
                    (Inl err, e'') \<Rightarrow> ((b, State b, Some err), e'')
                  | (Inr _, e'') \<Rightarrow> Add_finish st b count e'')
               else Add_finish st b count e'))))"

definition Add :: "'w store \<Rightarrow> bucket \<Rightarrow> uint \<Rightarrow> 'w env \<Rightarrow> 'w add_result" where
  "Add st b amount e =
     (case call st (GET (name b)) e of
        (Inl err, e') \<Rightarrow>
          (if err = ErrNil then Add_admit st (b\<lparr>remaining := capacity b\<rparr>) amount e'
           else ((b, State b, Some err), e'))
      | (Inr count, e') \<Rightarrow>
          Add_admit st (b\<lparr>remaining := capacity b - min_uint count (capacity b)\<rparr>) amount e')"

text \<open>\<open>Create\<close> returns \<open>(nil, err)\<close> as \<open>Inl err\<close> and \<open>(b, nil)\<close> as \<open>Inr b\<close>.\<close>

definition Create ::
  "'w store \<Rightarrow> string \<Rightarrow> uint \<Rightarrow> int64 \<Rightarrow> 'w env \<Rightarrow> (error + bucket) \<times> 'w env" where
  "Create st nm cap rt e =
     (case call st (GET nm) e of
        (Inl err, e') \<Rightarrow>
          (if err \<noteq> ErrNil then (Inl err, e')
           else (Inr \<lparr>name = nm, capacity = cap, remaining = cap,
                      reset = time_Add (now st (world e')) rt, rate = rt\<rparr>, e'))
      | (Inr count, e') \<Rightarrow>
          (case call st (PTTL nm) e' of
             (Inl err, e'') \<Rightarrow> (Inl err, e'')
           | (Inr ttl, e'') \<Rightarrow>
               (Inr \<lparr>name = nm, capacity = cap, remaining = cap - min_uint cap count,
                     reset = time_Add (now st (world e'')) (ttl * millisecond), rate = rt\<rparr>,
                e'')))"

subsection \<open>The same source with the refresh of reset left out\<close>

text \<open>
  For the comparison "as if the refresh had been skipped": \<open>Add\<close> again, without
  the two calls \<open>b.updateOldReset()\<close> (lines 73 and 89), and nothing else changed.
\<close>

definition Add_finish_skipping_refresh ::
  "'w store \<Rightarrow> bucket \<Rightarrow> uint \<Rightarrow> 'w env \<Rightarrow> 'w add_result" where
  "Add_finish_skipping_refresh st b count e =
     (let b'' = b\<lparr>remaining := capacity b - min_uint count (capacity b)\<rparr>
      in ((b'', State b'', None), e))"

definition Add_admit_skipping_refresh ::
  "'w store \<Rightarrow> bucket \<Rightarrow> uint \<Rightarrow> 'w env \<Rightarrow> 'w add_result" where
  "Add_admit_skipping_refresh st b amount e =
     (if amount > remaining b then ((b, State b, Some ErrorFull), e)
      else
        (let expiry = div_int64 (rate b) millisecond in
         (case call st (INCRBY (name b) amount) e of
            (Inl err, e') \<Rightarrow> ((b, State b, Some err), e')
          | (Inr count, e') \<Rightarrow>
              (if count = amount then
                 (case call st (PEXPIRE (name b) expiry) e' of
                    (Inl err, e'') \<Rightarrow> ((b, State b, Some err), e'')
                  | (Inr _, e'') \<Rightarrow> Add_finish_skipping_refresh st b count e'')
               else Add_finish_skipping_refresh st b count e'))))"

definition Add_skipping_refresh ::
  "'w store \<Rightarrow> bucket \<Rightarrow> uint \<Rightarrow> 'w env \<Rightarrow> 'w add_result" where
  "Add_skipping_refresh st b amount e =
     (case call st (GET (name b)) e of
        (Inl err, e') \<Rightarrow>
          (if err = ErrNil
           then Add_admit_skipping_refresh st (b\<lparr>remaining := capacity b\<rparr>) amount e'
           else ((b, State b, Some err), e'))
      | (Inr count, e') \<Rightarrow>
          Add_admit_skipping_refresh st
            (b\<lparr>remaining := capacity b - min_uint count (capacity b)\<rparr>) amount e')"

subsection \<open>A store to run the source on\<close>

text \<open>
  Modelled from the spec: the shared store itself, which is a redis server and no code
  of this repository. It follows the command contract of section 6 of the
  specification: a counter per key, created by the first increment, with an optional
  expiry; a key whose expiry has passed is absent. \<open>wclock\<close> is the wall clock
  in nanoseconds, \<open>cells\<close> maps a key to its counter and the instant it expires at.
  A command takes no time; \<open>elapse\<close> lets time pass between two calls.
\<close>

record rworld =
  wclock :: time
  cells :: "string \<rightharpoonup> nat \<times> time option"

definition live :: "rworld \<Rightarrow> string \<Rightarrow> (nat \<times> time option) option" where
  "live w k =
     (case cells w k of
        None \<Rightarrow> None
      | Some (v, None) \<Rightarrow> Some (v, None)
      | Some (v, Some t) \<Rightarrow> (if t \<le> wclock w then None else Some (v, Some t)))"

fun redis_exec :: "cmd \<Rightarrow> rworld \<Rightarrow> (error + 64 word) \<times> rworld" where
  "redis_exec (GET k) w =
     (case live w k of
        None \<Rightarrow> (Inl ErrNil, w)
      | Some (v, d) \<Rightarrow>
          (if v < 2 ^ 64 then (Inr (of_nat v), w)
           else (Inl (StoreError ''value out of range''), w)))"
| "redis_exec (INCRBY k a) w =
     (case (case live w k of None \<Rightarrow> (0, None) | Some c \<Rightarrow> c) of
        (v, d) \<Rightarrow>
          (if v + unat a < 2 ^ 64
           then (Inr (of_nat (v + unat a)), w\<lparr>cells := (cells w)(k \<mapsto> (v + unat a, d))\<rparr>)
           else (Inl (StoreError ''value out of range''), w)))"
| "redis_exec (PEXPIRE k ms) w =
     (case live w k of
        None \<Rightarrow> (Inr 0, w)
      | Some (v, d) \<Rightarrow>
          (Inr 1, w\<lparr>cells := (cells w)(k \<mapsto> (v, Some (wclock w + sint ms * 1000000)))\<rparr>))"
| "redis_exec (PTTL k) w =
     (case live w k of
        None \<Rightarrow> (Inr (- 2), w)
      | Some (v, None) \<Rightarrow> (Inr (- 1), w)
      | Some (v, Some t) \<Rightarrow> (Inr (word_of_int ((t - wclock w) div 1000000)), w))"

definition redis :: "rworld store" where
  "redis = \<lparr>now = wclock, exec = redis_exec\<rparr>"

definition elapse :: "nat \<Rightarrow> rworld env \<Rightarrow> rworld env" where
  "elapse d e = e\<lparr>world := (world e)\<lparr>wclock := wclock (world e) + int d\<rparr>\<rparr>"

text \<open>A store on which the commands chosen by \<open>bad\<close> fail, and change nothing.\<close>

definition failing :: "(cmd \<Rightarrow> bool) \<Rightarrow> 'w store \<Rightarrow> 'w store" where
  "failing bad st =
     st\<lparr>exec := (\<lambda>c w. if bad c then (Inl (StoreError ''connection lost''), w)
                        else exec st c w)\<rparr>"

fun is_PTTL :: "cmd \<Rightarrow> bool" where
  "is_PTTL (PTTL k) = True"
| "is_PTTL c = False"

fun is_PEXPIRE :: "cmd \<Rightarrow> bool" where
  "is_PEXPIRE (PEXPIRE k ms) = True"
| "is_PEXPIRE c = False"

fun is_GET :: "cmd \<Rightarrow> bool" where
  "is_GET (GET k) = True"
| "is_GET c = False"

text \<open>The commands that write to the store.\<close>

fun mutating :: "cmd \<Rightarrow> bool" where
  "mutating (INCRBY k a) = True"
| "mutating (PEXPIRE k ms) = True"
| "mutating c = False"

text \<open>An empty store at 10.2 s, and one where the key holds 5 and expires in 500 ms.\<close>

definition w_empty :: rworld where
  "w_empty = \<lparr>wclock = 10200000000, cells = Map.empty\<rparr>"

definition w_five :: rworld where
  "w_five = \<lparr>wclock = 10200000000, cells = [''k'' \<mapsto> (5, Some 10700000000)]\<rparr>"

definition env0 :: "'w \<Rightarrow> 'w env" where
  "env0 w = \<lparr>world = w, trace = []\<rparr>"

text \<open>
  More states to run the source in: \<open>w_late\<close> is 0.9 s after \<open>w_empty\<close>, a first Add has
  set the key to 4 with a window of 1 s; in \<open>w_half\<close> the key has half a millisecond to
  live; in \<open>w_forever\<close> it has no expiry. \<open>b_fresh\<close> is the bucket that \<open>Create\<close> returns
  in \<open>w_empty\<close> for a capacity of 10 and a window of 1 s; the window of \<open>b_old\<close> ended at
  9 s.
\<close>

definition w_late :: rworld where
  "w_late = \<lparr>wclock = 11100000000, cells = [''k'' \<mapsto> (4, Some 12100000000)]\<rparr>"

definition w_half :: rworld where
  "w_half = \<lparr>wclock = 10200000000, cells = [''k'' \<mapsto> (5, Some 10200500000)]\<rparr>"

definition w_forever :: rworld where
  "w_forever = \<lparr>wclock = 10200000000, cells = [''k'' \<mapsto> (5, None)]\<rparr>"

definition b_fresh :: bucket where
  "b_fresh = \<lparr>name = ''k'', capacity = 10, remaining = 10,
              reset = 11200000000, rate = 1000000000\<rparr>"

definition b_old :: bucket where
  "b_old = \<lparr>name = ''k'', capacity = 10, remaining = 0,
            reset = 9000000000, rate = 1000000000\<rparr>"

subsection \<open>Reading a result\<close>

definition bucket_after :: "'w add_result \<Rightarrow> bucket" where
  "bucket_after r = fst (fst r)"

definition returned_state :: "'w add_result \<Rightarrow> bucket_state" where
  "returned_state r = fst (snd (fst r))"

definition returned_error :: "'w add_result \<Rightarrow> error option" where
  "returned_error r = snd (snd (fst r))"

text \<open>The commands issued, with their answers, between the environments \<open>e\<close> and \<open>e'\<close>.\<close>

definition issued :: "'w env \<Rightarrow> 'w env \<Rightarrow> (cmd \<times> (error + 64 word)) list" where
  "issued e e' = drop (length (trace e)) (trace e')"

text \<open>
  The remaining quota computed from the store counter: what lines 61 to 70 of \<open>Add\<close>
  assign to \<open>b.remaining\<close> for the answer \<open>g\<close> of the GET, and \<open>None\<close> when \<open>Add\<close>
  returns there with the error of the store.
\<close>

definition quota :: "uint \<Rightarrow> (error + 64 word) \<Rightarrow> uint option" where
  "quota cap g =
     (case g of
        Inl err \<Rightarrow> (if err = ErrNil then Some cap else None)
      | Inr count \<Rightarrow> Some (cap - min_uint count cap))"

text \<open>
  A bucket with a window of 1.5 ms, as \<open>Create\<close> returns it in \<open>w_empty\<close>; a store whose
  counter, at 15, is above the capacity of 10, and the bucket \<open>Create\<close> returns there.
\<close>

definition b_odd :: bucket where
  "b_odd = \<lparr>name = ''k'', capacity = 10, remaining = 10,
            reset = 10201500000, rate = 1500000\<rparr>"

definition w_over :: rworld where
  "w_over = \<lparr>wclock = 10200000000, cells = [''k'' \<mapsto> (15, Some 10700000000)]\<rparr>"

definition b_over :: bucket where
  "b_over = \<lparr>name = ''k'', capacity = 10, remaining = 0,
             reset = 10700000000, rate = 1000000000\<rparr>"

subsection \<open>A sequence of calls\<close>

text \<open>
  A caller that calls \<open>Add\<close> on one bucket again and again, on the store above: each
  step \<open>(d, a)\<close> lets \<open>d\<close> nanoseconds pass and then calls \<open>Add(a)\<close>. The result is the
  bucket after the last call and what each call has returned.
\<close>

fun Adds ::
  "rworld store \<Rightarrow> bucket \<Rightarrow> (nat \<times> uint) list \<Rightarrow> rworld env
     \<Rightarrow> (bucket \<times> (bucket_state \<times> error option) list) \<times> rworld env" where
  "Adds st b [] e = ((b, []), e)"
| "Adds st b ((d, a) # xs) e =
     (case Add st b a (elapse d e) of
        ((b', s, err), e') \<Rightarrow>
          (case Adds st b' xs e' of
             ((b'', rs), e'') \<Rightarrow> ((b'', (s, err) # rs), e'')))"

text \<open>The sum of the amounts of the steps, and the time they take, in nanoseconds.\<close>

definition amounts :: "(nat \<times> uint) list \<Rightarrow> nat" where
  "amounts steps = sum_list (map (unat \<circ> snd) steps)"

definition delays :: "(nat \<times> uint) list \<Rightarrow> int" where
  "delays steps = int (sum_list (map fst steps))"

text \<open>
  The window as the store keeps it: the expiry that \<open>Add\<close> sends with PEXPIRE for a
  bucket of rate \<open>rt\<close>, in nanoseconds.
\<close>

definition window :: "int64 \<Rightarrow> int" where
  "window rt = sint (div_int64 rt millisecond) * 1000000"

section \<open>Properties\<close>

subsection \<open>Arithmetic of the helpers\<close>

lemma min_uint_le: "min_uint a b \<le> b"
  by (auto simp: min_uint_def)

lemma clip_le_capacity: "cap - min_uint c cap \<le> cap"
  by (simp add: min_uint_def word_sub_le)

lemma unat_clip: "unat (cap - min_uint c cap) = unat cap - min (unat c) (unat cap)"
  by (auto simp: min_uint_def unat_sub word_less_nat_alt word_le_nat_alt)

lemma min_uint_commute: "min_uint a b = min_uint b a"
  by (auto simp: min_uint_def)

lemma sint_times_millisecond:
  "- 9223372036854 \<le> sint t \<Longrightarrow> sint t \<le> 9223372036854
     \<Longrightarrow> sint (t * millisecond) = sint t * 1000000"
  unfolding millisecond_def
  by (simp add: sint_word_ariths signed_take_bit_int_eq_self)

subsection \<open>Create\<close>

text \<open>
  C4. When the store reports the key absent (GET answers \<open>redis.ErrNil\<close>), \<open>Create\<close>
  returns a bucket with remaining = capacity and reset = now + windowDuration, where
  now is the clock read after the GET; GET is the only command it issues, so no
  mutating command is sent.
\<close>

theorem Create_absent_key:
  assumes "exec st (GET nm) (world e) = (Inl ErrNil, w1)"
  shows "Create st nm cap rt e =
           (Inr \<lparr>name = nm, capacity = cap, remaining = cap,
                 reset = now st w1 + sint rt, rate = rt\<rparr>,
            \<lparr>world = w1, trace = trace e @ [(GET nm, Inl ErrNil)]\<rparr>)"
  using assms by (simp add: Create_def call_def time_Add_def)

theorem Create_absent_key_witness:
  "exec redis (GET ''k'') (world (env0 w_empty)) = (Inl ErrNil, w_empty) \<and>
   Create redis ''k'' 10 1000000000 (env0 w_empty) =
     (Inr \<lparr>name = ''k'', capacity = 10, remaining = 10,
           reset = 11200000000, rate = 1000000000\<rparr>,
      \<lparr>world = w_empty, trace = [(GET ''k'', Inl ErrNil)]\<rparr>)"
proof -
  have g: "exec redis (GET ''k'') (world (env0 w_empty)) = (Inl ErrNil, w_empty)"
    by (simp add: redis_def env0_def w_empty_def live_def)
  show ?thesis
    using g Create_absent_key [OF g, of 10 1000000000]
    by (simp add: redis_def env0_def w_empty_def)
qed

text \<open>
  C5. When the store reports the key present with counter \<open>c\<close> (GET answers \<open>c\<close>) and
  time-to-live \<open>ttl\<close> milliseconds (PTTL answers \<open>ttl\<close>), \<open>Create\<close> returns a bucket with
  remaining = capacity - min(capacity, c), a subtraction that cannot wrap, and
  reset = now + ttl, where now is the clock read after the PTTL and ttl is carried as
  the \<open>time.Duration\<close> \<open>ttl * millisecond\<close>: for every ttl a Duration can hold
  (up to 9223372036854 ms either way) that is ttl times 1000000 nanoseconds. \<open>Create\<close>
  fails with the store's error when the GET fails with an error other than
  \<open>redis.ErrNil\<close>, and when the PTTL fails.
\<close>

theorem Create_present_key:
  "(exec st (GET nm) (world e) = (Inr c, w1) \<and> exec st (PTTL nm) w1 = (Inr ttl, w2) \<longrightarrow>
      Create st nm cap rt e =
        (Inr \<lparr>name = nm, capacity = cap, remaining = cap - min_uint cap c,
              reset = now st w2 + sint (ttl * millisecond), rate = rt\<rparr>,
         \<lparr>world = w2, trace = trace e @ [(GET nm, Inr c), (PTTL nm, Inr ttl)]\<rparr>) \<and>
      unat (cap - min_uint cap c) = unat cap - min (unat cap) (unat c) \<and>
      (- 9223372036854 \<le> sint ttl \<and> sint ttl \<le> 9223372036854 \<longrightarrow>
         fst (Create st nm cap rt e) =
           Inr \<lparr>name = nm, capacity = cap, remaining = cap - min_uint cap c,
                reset = now st w2 + sint ttl * 1000000, rate = rt\<rparr>)) \<and>
   (exec st (GET nm) (world e) = (Inl err, w1) \<and> err \<noteq> ErrNil \<longrightarrow>
      Create st nm cap rt e =
        (Inl err, \<lparr>world = w1, trace = trace e @ [(GET nm, Inl err)]\<rparr>)) \<and>
   (exec st (GET nm) (world e) = (Inr c, w1) \<and> exec st (PTTL nm) w1 = (Inl err, w2) \<longrightarrow>
      Create st nm cap rt e =
        (Inl err, \<lparr>world = w2, trace = trace e @ [(GET nm, Inr c), (PTTL nm, Inl err)]\<rparr>))"
proof -
  have clip: "unat (cap - min_uint cap c) = unat cap - min (unat cap) (unat c)"
    using unat_clip [of cap c] by (simp add: min_uint_commute min.commute)
  show ?thesis
    by (auto simp: Create_def call_def time_Add_def clip sint_times_millisecond)
qed

theorem Create_present_key_witness:
  "Create redis ''k'' 10 1000000000 (env0 w_five) =
     (Inr \<lparr>name = ''k'', capacity = 10, remaining = 5,
           reset = 10700000000, rate = 1000000000\<rparr>,
      \<lparr>world = w_five, trace = [(GET ''k'', Inr 5), (PTTL ''k'', Inr 500)]\<rparr>) \<and>
   fst (Create (failing is_GET redis) ''k'' 10 1000000000 (env0 w_five)) =
     Inl (StoreError ''connection lost'') \<and>
   fst (Create (failing is_PTTL redis) ''k'' 10 1000000000 (env0 w_five)) =
     Inl (StoreError ''connection lost'')"
proof -
  have g: "exec redis (GET ''k'') (world (env0 w_five)) = (Inr 5, w_five)"
    by (simp add: redis_def env0_def w_five_def live_def)
  have t: "exec redis (PTTL ''k'') w_five = (Inr 500, w_five)"
    by (simp add: redis_def w_five_def live_def)
  have gf: "exec (failing is_GET redis) (GET ''k'') (world (env0 w_five)) =
              (Inl (StoreError ''connection lost''), w_five)"
    by (simp add: failing_def env0_def)
  have g': "exec (failing is_PTTL redis) (GET ''k'') (world (env0 w_five)) = (Inr 5, w_five)"
    by (simp add: failing_def redis_def env0_def w_five_def live_def)
  have tf: "exec (failing is_PTTL redis) (PTTL ''k'') w_five =
              (Inl (StoreError ''connection lost''), w_five)"
    by (simp add: failing_def)
  have m: "min_uint (10 :: uint) 5 = 5"
    by (simp add: min_uint_def)
  have s: "sint ((500 :: int64) * millisecond) = 500000000"
    by (simp add: millisecond_def)
  from g t Create_present_key
    [of redis "''k''" "env0 w_five" 5 w_five 500 w_five 10 1000000000]
  have 1: "Create redis ''k'' 10 1000000000 (env0 w_five) =
     (Inr \<lparr>name = ''k'', capacity = 10, remaining = 5,
           reset = 10700000000, rate = 1000000000\<rparr>,
      \<lparr>world = w_five, trace = [(GET ''k'', Inr 5), (PTTL ''k'', Inr 500)]\<rparr>)"
    by (simp add: m s) (simp add: redis_def env0_def w_five_def)
  from gf Create_present_key
    [of "failing is_GET redis" "''k''" "env0 w_five" _ w_five _ _ _ _
        "StoreError ''connection lost''"]
  have 2: "fst (Create (failing is_GET redis) ''k'' 10 1000000000 (env0 w_five)) =
     Inl (StoreError ''connection lost'')"
    by simp
  from g' tf Create_present_key
    [of "failing is_PTTL redis" "''k''" "env0 w_five" 5 w_five _ w_five _ _
        "StoreError ''connection lost''"]
  have 3: "fst (Create (failing is_PTTL redis) ''k'' 10 1000000000 (env0 w_five)) =
     Inl (StoreError ''connection lost'')"
    by simp
  from 1 2 3 show ?thesis by simp
qed

subsection \<open>The refresh of reset\<close>

lemma Unix_mono: "s \<le> t \<Longrightarrow> Unix s \<le> Unix t"
  unfolding Unix_def by (rule zdiv_mono1) simp_all

lemma Unix_next_second: "Unix (t + 1000000000) = Unix t + 1"
  unfolding Unix_def by simp

text \<open>
  C7, as the code has it. The refresh compares whole Unix seconds. It returns at once,
  with reset untouched and no store call, when the second of reset is after the second
  of now, which holds whenever reset is a full second or more ahead. Otherwise it
  issues one PTTL: for every reset that is not after now, and also for a reset that is
  ahead of now within the same clock second.
\<close>

theorem updateOldReset_compares_seconds:
  "(Unix (reset b) > Unix (now st (world e)) \<longrightarrow> updateOldReset st b e = ((b, None), e)) \<and>
   (Unix (reset b) \<le> Unix (now st (world e)) \<longrightarrow>
      trace (snd (updateOldReset st b e)) =
        trace e @ [(PTTL (name b), fst (exec st (PTTL (name b)) (world e)))]) \<and>
   (reset b \<le> now st (world e) \<longrightarrow> Unix (reset b) \<le> Unix (now st (world e))) \<and>
   (now st (world e) + 1000000000 \<le> reset b \<longrightarrow> Unix (reset b) > Unix (now st (world e)))"
proof -
  have far: "Unix (now st (world e)) < Unix (reset b)"
    if "now st (world e) + 1000000000 \<le> reset b"
    using Unix_mono [OF that] by (simp add: Unix_next_second)
  have query: "trace (snd (updateOldReset st b e)) =
      trace e @ [(PTTL (name b), fst (exec st (PTTL (name b)) (world e)))]"
    if "Unix (reset b) \<le> Unix (now st (world e))"
    using that
    by (cases "exec st (PTTL (name b)) (world e)")
       (auto simp: updateOldReset_def call_def split: sum.splits)
  show ?thesis
    using far query by (simp add: updateOldReset_def Unix_mono)
qed

theorem updateOldReset_compares_seconds_witness:
  "Unix (reset b_fresh) > Unix (now redis (world (env0 w_empty))) \<and>
   updateOldReset redis b_fresh (env0 w_empty) = ((b_fresh, None), env0 w_empty) \<and>
   Unix (reset b_old) \<le> Unix (now redis (world (env0 w_empty))) \<and>
   trace (snd (updateOldReset redis b_old (env0 w_empty))) = [(PTTL ''k'', Inr (- 2))] \<and>
   reset b_old \<le> now redis (world (env0 w_empty)) \<and>
   now redis (world (env0 w_empty)) + 1000000000 \<le> reset b_fresh"
proof -
  have 1: "Unix (reset b_fresh) > Unix (now redis (world (env0 w_empty)))"
    by (simp add: Unix_def b_fresh_def redis_def env0_def w_empty_def)
  have 2: "Unix (reset b_old) \<le> Unix (now redis (world (env0 w_empty)))"
    by (simp add: Unix_def b_old_def redis_def env0_def w_empty_def)
  have 3: "fst (exec redis (PTTL (name b_old)) (world (env0 w_empty))) = Inr (- 2)"
    by (simp add: b_old_def redis_def env0_def w_empty_def live_def)
  have 4: "reset b_old \<le> now redis (world (env0 w_empty))"
    by (simp add: b_old_def redis_def env0_def w_empty_def)
  have 5: "now redis (world (env0 w_empty)) + 1000000000 \<le> reset b_fresh"
    by (simp add: b_fresh_def redis_def env0_def w_empty_def)
  have n: "name b_old = ''k''" "trace (env0 w_empty) = []"
    by (simp_all add: b_old_def env0_def)
  from updateOldReset_compares_seconds [where b = b_fresh and st = redis and e = "env0 w_empty"] 1
  have a: "updateOldReset redis b_fresh (env0 w_empty) = ((b_fresh, None), env0 w_empty)"
    by simp
  from updateOldReset_compares_seconds [where b = b_old and st = redis and e = "env0 w_empty"] 2 3
  have b: "trace (snd (updateOldReset redis b_old (env0 w_empty))) = [(PTTL ''k'', Inr (- 2))]"
    by (simp add: n)
  from 1 2 4 5 a b show ?thesis by simp
qed

text \<open>
  C7 as the specification words it fails: at 11.1 s a reset of 11.2 s is strictly in the
  future, yet the refresh asks the store (both fall in second 11) and moves reset to
  12.1 s.
\<close>

theorem updateOldReset_future_reset_counterexample:
  "now redis (world (env0 w_late)) < reset b_fresh \<and>
   updateOldReset redis b_fresh (env0 w_late) =
     ((b_fresh\<lparr>reset := 12100000000\<rparr>, None),
      \<lparr>world = w_late, trace = [(PTTL ''k'', Inr 1000)]\<rparr>) \<and>
   reset (b_fresh\<lparr>reset := 12100000000\<rparr>) \<noteq> reset b_fresh"
  by (simp add: updateOldReset_def call_def Unix_def time_Add_def millisecond_def
      redis_def env0_def w_late_def b_fresh_def live_def)

text \<open>
  C10, as the code has it. For every negative time-to-live reply that a Duration can
  hold in nanoseconds (from -9223372036854 up to -1, so the replies -1 "no expiry" and
  -2 "not found" of the store among them), the refresh that queries the store and
  \<open>Create\<close> on an existing key both set reset = now + ttl * millisecond with no test of
  the reply, which is strictly before the now they have just read.
\<close>

theorem negative_ttl_puts_reset_in_the_past:
  assumes "- 9223372036854 \<le> sint ttl" and "sint ttl < 0"
  shows
    "(Unix (reset b) \<le> Unix (now st (world e)) \<and>
      exec st (PTTL (name b)) (world e) = (Inr ttl, w1) \<longrightarrow>
        updateOldReset st b e =
          ((b\<lparr>reset := now st w1 + sint ttl * 1000000\<rparr>, None),
           \<lparr>world = w1, trace = trace e @ [(PTTL (name b), Inr ttl)]\<rparr>) \<and>
        reset (fst (fst (updateOldReset st b e))) < now st w1) \<and>
     (exec st (GET nm) (world e) = (Inr c, w2) \<and> exec st (PTTL nm) w2 = (Inr ttl, w3) \<longrightarrow>
        Create st nm cap rt e =
          (Inr \<lparr>name = nm, capacity = cap, remaining = cap - min_uint cap c,
                reset = now st w3 + sint ttl * 1000000, rate = rt\<rparr>,
           \<lparr>world = w3, trace = trace e @ [(GET nm, Inr c), (PTTL nm, Inr ttl)]\<rparr>) \<and>
        now st w3 + sint ttl * 1000000 < now st w3)"
proof -
  have ms: "sint (ttl * millisecond) = sint ttl * 1000000"
    using assms by (simp add: sint_times_millisecond)
  show ?thesis
    using assms(2) by (auto simp: updateOldReset_def Create_def call_def time_Add_def ms)
qed

theorem negative_ttl_puts_reset_in_the_past_witness:
  "updateOldReset redis b_old (env0 w_empty) =
     ((b_old\<lparr>reset := 10198000000\<rparr>, None),
      \<lparr>world = w_empty, trace = [(PTTL ''k'', Inr (- 2))]\<rparr>) \<and>
   reset (fst (fst (updateOldReset redis b_old (env0 w_empty)))) < now redis w_empty \<and>
   Create redis ''k'' 10 1000000000 (env0 w_forever) =
     (Inr \<lparr>name = ''k'', capacity = 10, remaining = 5,
           reset = 10199000000, rate = 1000000000\<rparr>,
      \<lparr>world = w_forever, trace = [(GET ''k'', Inr 5), (PTTL ''k'', Inr (- 1))]\<rparr>)"
proof -
  have stale: "Unix (reset b_old) \<le> Unix (now redis (world (env0 w_empty)))"
    by (simp add: Unix_def b_old_def redis_def env0_def w_empty_def)
  have t2: "exec redis (PTTL (name b_old)) (world (env0 w_empty)) = (Inr (- 2), w_empty)"
    by (simp add: b_old_def redis_def env0_def w_empty_def live_def)
  have g: "exec redis (GET ''k'') (world (env0 w_forever)) = (Inr 5, w_forever)"
    by (simp add: redis_def env0_def w_forever_def live_def)
  have t1: "exec redis (PTTL ''k'') w_forever = (Inr (- 1), w_forever)"
    by (simp add: redis_def w_forever_def live_def)
  have m: "min_uint (10 :: uint) 5 = 5"
    by (simp add: min_uint_def)
  from stale t2 negative_ttl_puts_reset_in_the_past
    [where ttl = "- 2" and b = b_old and st = redis and e = "env0 w_empty" and ?w1.0 = w_empty]
  have a: "updateOldReset redis b_old (env0 w_empty) =
     ((b_old\<lparr>reset := 10198000000\<rparr>, None),
      \<lparr>world = w_empty, trace = [(PTTL ''k'', Inr (- 2))]\<rparr>) \<and>
   reset (fst (fst (updateOldReset redis b_old (env0 w_empty)))) < now redis w_empty"
    by (simp add: redis_def env0_def w_empty_def b_old_def)
  from g t1 negative_ttl_puts_reset_in_the_past
    [where ttl = "- 1" and st = redis and e = "env0 w_forever" and nm = "''k''"
       and c = 5 and ?w2.0 = w_forever and ?w3.0 = w_forever and cap = 10
       and rt = 1000000000]
  have b: "Create redis ''k'' 10 1000000000 (env0 w_forever) =
     (Inr \<lparr>name = ''k'', capacity = 10, remaining = 5,
           reset = 10199000000, rate = 1000000000\<rparr>,
      \<lparr>world = w_forever, trace = [(GET ''k'', Inr 5), (PTTL ''k'', Inr (- 1))]\<rparr>)"
    by (simp add: m) (simp add: redis_def env0_def w_forever_def)
  from a b show ?thesis by blast
qed

text \<open>
  C10 as worded fails at the non-positive reply 0, which the store gives for a key
  with less than a millisecond to live: reset is then now itself, not before it.
\<close>

theorem zero_ttl_reset_counterexample:
  "exec redis (PTTL ''k'') w_half = (Inr 0, w_half) \<and>
   sint (0 :: int64) \<le> 0 \<and>
   Create redis ''k'' 10 1000000000 (env0 w_half) =
     (Inr \<lparr>name = ''k'', capacity = 10, remaining = 5,
           reset = now redis w_half, rate = 1000000000\<rparr>,
      \<lparr>world = w_half, trace = [(GET ''k'', Inr 5), (PTTL ''k'', Inr 0)]\<rparr>) \<and>
   updateOldReset redis b_old (env0 w_half) =
     ((b_old\<lparr>reset := now redis w_half\<rparr>, None),
      \<lparr>world = w_half, trace = [(PTTL ''k'', Inr 0)]\<rparr>) \<and>
   \<not> now redis w_half < now redis w_half"
  by (simp add: Create_def updateOldReset_def call_def Unix_def time_Add_def
      millisecond_def min_uint_def redis_def env0_def w_half_def b_old_def live_def)

subsection \<open>Add\<close>

text \<open>The three ways \<open>updateOldReset\<close> can go.\<close>

lemma updateOldReset_cases [case_names skip fail ok]:
  obtains
    (skip) "Unix (reset b) > Unix (now st (world e))"
           "updateOldReset st b e = ((b, None), e)"
  | (fail) err w' where
           "\<not> Unix (reset b) > Unix (now st (world e))"
           "exec st (PTTL (name b)) (world e) = (Inl err, w')"
           "updateOldReset st b e =
              ((b, Some err), \<lparr>world = w', trace = trace e @ [(PTTL (name b), Inl err)]\<rparr>)"
  | (ok) ttl w' where
           "\<not> Unix (reset b) > Unix (now st (world e))"
           "exec st (PTTL (name b)) (world e) = (Inr ttl, w')"
           "updateOldReset st b e =
              ((b\<lparr>reset := now st w' + sint (ttl * millisecond)\<rparr>, None),
               \<lparr>world = w', trace = trace e @ [(PTTL (name b), Inr ttl)]\<rparr>)"
proof (cases "Unix (reset b) > Unix (now st (world e))")
  case True
  then show ?thesis using skip by (simp add: updateOldReset_def)
next
  case False
  obtain r w' where x: "exec st (PTTL (name b)) (world e) = (r, w')"
    by (cases "exec st (PTTL (name b)) (world e)")
  show ?thesis
  proof (cases r)
    case (Inl err)
    with False x show ?thesis using fail [of err w']
      by (simp add: updateOldReset_def call_def)
  next
    case (Inr ttl)
    with False x show ?thesis using ok [of ttl w']
      by (simp add: updateOldReset_def call_def time_Add_def)
  qed
qed

lemma updateOldReset_shape:
  "\<exists>t x tl w'. updateOldReset st b e = ((b\<lparr>reset := t\<rparr>, x), \<lparr>world = w', trace = trace e @ tl\<rparr>) \<and>
      set (map fst tl) \<subseteq> {PTTL (name b)}"
proof (cases rule: updateOldReset_cases [where b = b and st = st and e = e])
  case skip
  then have "updateOldReset st b e =
      ((b\<lparr>reset := reset b\<rparr>, None), \<lparr>world = world e, trace = trace e @ []\<rparr>)"
    by simp
  then show ?thesis
    by (intro exI [of _ "reset b"] exI [of _ None] exI [of _ "[]"] exI [of _ "world e"]) simp
next
  case (fail err w')
  then have "updateOldReset st b e =
      ((b\<lparr>reset := reset b\<rparr>, Some err),
       \<lparr>world = w', trace = trace e @ [(PTTL (name b), Inl err)]\<rparr>)"
    by simp
  then show ?thesis
    by (intro exI [of _ "reset b"] exI [of _ "Some err"]
          exI [of _ "[(PTTL (name b), Inl err)]"] exI [of _ w']) simp
next
  case (ok ttl w')
  then show ?thesis
    by (intro exI [of _ "now st w' + sint (ttl * millisecond)"] exI [of _ None]
          exI [of _ "[(PTTL (name b), Inr ttl)]"] exI [of _ w']) simp
qed

text \<open>Unfolding the definitions on a concrete run.\<close>

lemmas run_defs = Add_def Add_admit_def Add_finish_def updateOldReset_def call_def Create_def
  redis_def live_def env0_def failing_def min_uint_def millisecond_def div_int64_def
  signed_divide_int_def Unix_def time_Add_def State_def Let_def issued_def quota_def
  bucket_after_def returned_state_def returned_error_def
  Add_skipping_refresh_def Add_admit_skipping_refresh_def Add_finish_skipping_refresh_def

lemma Add_get:
  assumes "exec st (GET (name b)) (world e) = (g, w1)" "quota (capacity b) g = Some r"
  shows "Add st b amount e =
     Add_admit st (b\<lparr>remaining := r\<rparr>) amount
       \<lparr>world = w1, trace = trace e @ [(GET (name b), g)]\<rparr>"
  using assms by (auto simp: Add_def call_def quota_def split: sum.splits if_splits)

lemma Add_finish_shape:
  "\<exists>t tl w'. Add_finish st b count e =
      ((b\<lparr>reset := t, remaining := capacity b - min_uint count (capacity b)\<rparr>,
        \<lparr>Capacity = capacity b, Remaining = capacity b - min_uint count (capacity b),
          Reset = t\<rparr>, None),
       \<lparr>world = w', trace = trace e @ tl\<rparr>) \<and>
      set (map fst tl) \<subseteq> {PTTL (name b)}"
proof (cases rule: updateOldReset_cases [where b = b and st = st and e = e])
  case skip
  then have "Add_finish st b count e =
      ((b\<lparr>reset := reset b, remaining := capacity b - min_uint count (capacity b)\<rparr>,
        \<lparr>Capacity = capacity b, Remaining = capacity b - min_uint count (capacity b),
          Reset = reset b\<rparr>, None),
       \<lparr>world = world e, trace = trace e @ []\<rparr>)"
    by (simp add: Add_finish_def State_def)
  then show ?thesis by (intro exI [of _ "reset b"] exI [of _ "[]"] exI [of _ "world e"]) simp
next
  case (fail err w')
  then have "Add_finish st b count e =
      ((b\<lparr>reset := reset b, remaining := capacity b - min_uint count (capacity b)\<rparr>,
        \<lparr>Capacity = capacity b, Remaining = capacity b - min_uint count (capacity b),
          Reset = reset b\<rparr>, None),
       \<lparr>world = w', trace = trace e @ [(PTTL (name b), Inl err)]\<rparr>)"
    by (simp add: Add_finish_def State_def)
  then show ?thesis
    by (intro exI [of _ "reset b"] exI [of _ "[(PTTL (name b), Inl err)]"] exI [of _ w']) simp
next
  case (ok ttl w')
  then have "Add_finish st b count e =
      ((b\<lparr>reset := now st w' + sint (ttl * millisecond),
           remaining := capacity b - min_uint count (capacity b)\<rparr>,
        \<lparr>Capacity = capacity b, Remaining = capacity b - min_uint count (capacity b),
          Reset = now st w' + sint (ttl * millisecond)\<rparr>, None),
       \<lparr>world = w', trace = trace e @ [(PTTL (name b), Inr ttl)]\<rparr>)"
    by (simp add: Add_finish_def State_def)
  then show ?thesis
    by (intro exI [of _ "now st w' + sint (ttl * millisecond)"]
          exI [of _ "[(PTTL (name b), Inr ttl)]"] exI [of _ w']) simp
qed

lemma Add_admit_shape:
  "\<exists>b' err w' tl.
     Add_admit st b amount e = ((b', State b', err), \<lparr>world = w', trace = trace e @ tl\<rparr>) \<and>
     capacity b' = capacity b \<and>
     (remaining b \<le> capacity b \<longrightarrow> remaining b' \<le> capacity b') \<and>
     set (map fst tl) \<subseteq>
       {PTTL (name b), INCRBY (name b) amount,
        PEXPIRE (name b) (div_int64 (rate b) millisecond)} \<and>
     (err = None \<longrightarrow>
        (\<exists>count. (INCRBY (name b) amount, Inr count) \<in> set tl \<and>
           remaining b' = capacity b - min_uint count (capacity b)))"
proof (cases "remaining b < amount")
  case True
  obtain t x tl w' where u:
    "updateOldReset st b e = ((b\<lparr>reset := t\<rparr>, x), \<lparr>world = w', trace = trace e @ tl\<rparr>)"
    "set (map fst tl) \<subseteq> {PTTL (name b)}"
    using updateOldReset_shape [of st b e] by blast
  show ?thesis
    using True u
    by (intro exI [of _ "b\<lparr>reset := t\<rparr>"] exI [of _ "Some ErrorFull"] exI [of _ w']
          exI [of _ tl])
       (auto simp: Add_admit_def)
next
  case False
  let ?x = "div_int64 (rate b) millisecond"
  obtain i w2 where i: "exec st (INCRBY (name b) amount) (world e) = (i, w2)"
    by (cases "exec st (INCRBY (name b) amount) (world e)")
  show ?thesis
  proof (cases i)
    case (Inl err)
    with False i show ?thesis
      by (intro exI [of _ b] exI [of _ "Some err"] exI [of _ w2]
            exI [of _ "[(INCRBY (name b) amount, Inl err)]"])
         (simp add: Add_admit_def call_def)
  next
    case (Inr count)
    let ?e2 = "\<lparr>world = w2, trace = trace e @ [(INCRBY (name b) amount, Inr count)]\<rparr>"
    let ?r = "capacity b - min_uint count (capacity b)"
    show ?thesis
    proof (cases "count = amount")
      case neq: False
      obtain t tl w' where f: "Add_finish st b count ?e2 =
          ((b\<lparr>reset := t, remaining := ?r\<rparr>,
            \<lparr>Capacity = capacity b, Remaining = ?r, Reset = t\<rparr>, None),
           \<lparr>world = w', trace = trace ?e2 @ tl\<rparr>)"
        "set (map fst tl) \<subseteq> {PTTL (name b)}"
        using Add_finish_shape [of st b count ?e2] by blast
      from False i Inr neq f show ?thesis
        by (intro exI [of _ "b\<lparr>reset := t, remaining := ?r\<rparr>"] exI [of _ None] exI [of _ w']
              exI [of _ "(INCRBY (name b) amount, Inr count) # tl"])
           (auto simp: Add_admit_def call_def State_def clip_le_capacity)
    next
      case eq: True
      obtain p w3 where p: "exec st (PEXPIRE (name b) ?x) w2 = (p, w3)"
        by (cases "exec st (PEXPIRE (name b) ?x) w2")
      let ?e3 = "\<lparr>world = w3, trace = trace e @ [(INCRBY (name b) amount, Inr count),
                   (PEXPIRE (name b) ?x, p)]\<rparr>"
      show ?thesis
      proof (cases p)
        case (Inl err)
        with False i Inr eq p show ?thesis
          by (intro exI [of _ b] exI [of _ "Some err"] exI [of _ w3]
                exI [of _ "[(INCRBY (name b) amount, Inr count), (PEXPIRE (name b) ?x, p)]"])
             (simp add: Add_admit_def call_def)
      next
        case ok: (Inr one)
        obtain t tl w' where f: "Add_finish st b count ?e3 =
            ((b\<lparr>reset := t, remaining := ?r\<rparr>,
              \<lparr>Capacity = capacity b, Remaining = ?r, Reset = t\<rparr>, None),
             \<lparr>world = w', trace = trace ?e3 @ tl\<rparr>)"
          "set (map fst tl) \<subseteq> {PTTL (name b)}"
          using Add_finish_shape [of st b count ?e3] by blast
        from False i Inr eq p ok f show ?thesis
          by (intro exI [of _ "b\<lparr>reset := t, remaining := ?r\<rparr>"] exI [of _ None]
                exI [of _ w']
                exI [of _ "(INCRBY (name b) amount, Inr count) # (PEXPIRE (name b) ?x, p) # tl"])
             (auto simp: Add_admit_def call_def State_def clip_le_capacity)
      qed
    qed
  qed
qed

lemma Add_shape:
  "\<exists>b' err w' tl.
     Add st b amount e = ((b', State b', err), \<lparr>world = w', trace = trace e @ tl\<rparr>) \<and>
     capacity b' = capacity b \<and>
     (remaining b \<le> capacity b \<longrightarrow> remaining b' \<le> capacity b') \<and>
     set (map fst tl) \<subseteq>
       {GET (name b), PTTL (name b), INCRBY (name b) amount,
        PEXPIRE (name b) (div_int64 (rate b) millisecond)} \<and>
     (err = None \<longrightarrow>
        (\<exists>count. (INCRBY (name b) amount, Inr count) \<in> set tl \<and>
           remaining b' = capacity b - min_uint count (capacity b)))"
proof -
  obtain g w1 where g: "exec st (GET (name b)) (world e) = (g, w1)"
    by (cases "exec st (GET (name b)) (world e)")
  let ?e1 = "\<lparr>world = w1, trace = trace e @ [(GET (name b), g)]\<rparr>"
  show ?thesis
  proof (cases "quota (capacity b) g")
    case None
    then obtain err where "g = Inl err" "err \<noteq> ErrNil"
      by (auto simp: quota_def split: sum.splits if_splits)
    with g show ?thesis
      by (intro exI [of _ b] exI [of _ "Some err"] exI [of _ w1]
            exI [of _ "[(GET (name b), g)]"])
         (simp add: Add_def call_def)
  next
    case (Some r)
    let ?b = "b\<lparr>remaining := r\<rparr>"
    have r: "r \<le> capacity b"
      using Some by (auto simp: quota_def clip_le_capacity split: sum.splits if_splits)
    obtain b' err w' tl where a:
      "Add_admit st ?b amount ?e1 = ((b', State b', err), \<lparr>world = w', trace = trace ?e1 @ tl\<rparr>)"
      "capacity b' = capacity ?b"
      "remaining ?b \<le> capacity ?b \<longrightarrow> remaining b' \<le> capacity b'"
      "set (map fst tl) \<subseteq>
         {PTTL (name ?b), INCRBY (name ?b) amount,
          PEXPIRE (name ?b) (div_int64 (rate ?b) millisecond)}"
      "err = None \<longrightarrow>
         (\<exists>count. (INCRBY (name ?b) amount, Inr count) \<in> set tl \<and>
            remaining b' = capacity ?b - min_uint count (capacity ?b))"
      using Add_admit_shape [of st ?b amount ?e1] by blast
    from a r show ?thesis
      by (intro exI [of _ b'] exI [of _ err] exI [of _ w']
            exI [of _ "(GET (name b), g) # tl"])
         (auto simp: Add_get [OF g Some])
  qed
qed

text \<open>
  C2, as the code has it. When the amount exceeds the remaining quota \<open>r\<close> computed
  from the store counter (the answer \<open>g\<close> of the GET), \<open>Add\<close> returns \<open>ErrorFull\<close>; the
  cached and the returned remaining are set to \<open>r\<close>, so nothing is consumed, and the
  cached remaining is unchanged when it was \<open>r\<close> before the call; and the commands
  issued are the GET, followed by at most the PTTL of the refresh: no INCRBY and no
  PEXPIRE.
\<close>

theorem Add_full:
  assumes get: "exec st (GET (name b)) (world e) = (g, w1)"
      and rem: "quota (capacity b) g = Some r"
      and full: "r < amount"
  shows "returned_error (Add st b amount e) = Some ErrorFull \<and>
         remaining (bucket_after (Add st b amount e)) = r \<and>
         Remaining (returned_state (Add st b amount e)) = r \<and>
         (remaining b = r \<longrightarrow> remaining (bucket_after (Add st b amount e)) = remaining b) \<and>
         (issued e (snd (Add st b amount e)) = [(GET (name b), g)] \<or>
          (\<exists>x. issued e (snd (Add st b amount e)) = [(GET (name b), g), (PTTL (name b), x)])) \<and>
         list_all (\<lambda>(c, x). \<not> mutating c) (issued e (snd (Add st b amount e)))"
proof -
  let ?b = "b\<lparr>remaining := r\<rparr>"
  let ?e = "\<lparr>world = w1, trace = trace e @ [(GET (name b), g)]\<rparr>"
  have a: "Add st b amount e =
      (case updateOldReset st ?b ?e of ((b', _), e') \<Rightarrow> ((b', State b', Some ErrorFull), e'))"
    using full by (simp add: Add_get [OF get rem] Add_admit_def)
  show ?thesis
    by (cases rule: updateOldReset_cases [where b = ?b and st = st and e = ?e])
       (simp_all add: a returned_error_def bucket_after_def returned_state_def State_def
          issued_def)
qed

theorem Add_full_witness:
  "returned_error (Add redis (b_fresh\<lparr>remaining := 6\<rparr>) 7 (env0 w_late)) = Some ErrorFull \<and>
   remaining (bucket_after (Add redis (b_fresh\<lparr>remaining := 6\<rparr>) 7 (env0 w_late))) = 6 \<and>
   Remaining (returned_state (Add redis (b_fresh\<lparr>remaining := 6\<rparr>) 7 (env0 w_late))) = 6 \<and>
   remaining (b_fresh\<lparr>remaining := 6\<rparr>) = 6 \<and>
   remaining (bucket_after (Add redis (b_fresh\<lparr>remaining := 6\<rparr>) 7 (env0 w_late))) =
     remaining (b_fresh\<lparr>remaining := 6\<rparr>) \<and>
   issued (env0 w_late) (snd (Add redis (b_fresh\<lparr>remaining := 6\<rparr>) 7 (env0 w_late))) =
     [(GET ''k'', Inr 4), (PTTL ''k'', Inr 1000)] \<and>
   world (snd (Add redis (b_fresh\<lparr>remaining := 6\<rparr>) 7 (env0 w_late))) = w_late \<and>
   returned_error (Add redis b_fresh 7 (env0 w_late)) = Some ErrorFull \<and>
   remaining (bucket_after (Add redis b_fresh 7 (env0 w_late))) = 6"
proof -
  let ?b = "b_fresh\<lparr>remaining := 6\<rparr>"
  have get: "exec redis (GET (name ?b)) (world (env0 w_late)) = (Inr 4, w_late)"
    by (simp add: redis_def env0_def w_late_def b_fresh_def live_def)
  have rem: "quota (capacity ?b) (Inr 4) = Some 6"
    by (simp add: quota_def b_fresh_def min_uint_def)
  have get': "exec redis (GET (name b_fresh)) (world (env0 w_late)) = (Inr 4, w_late)"
    by (simp add: redis_def env0_def w_late_def b_fresh_def live_def)
  have rem': "quota (capacity b_fresh) (Inr 4) = Some 6"
    by (simp add: quota_def b_fresh_def min_uint_def)
  have full: "(6 :: uint) < 7"
    by simp
  have same: "remaining ?b = 6"
    by simp
  have run: "issued (env0 w_late) (snd (Add redis ?b 7 (env0 w_late))) =
       [(GET ''k'', Inr 4), (PTTL ''k'', Inr 1000)] \<and>
     world (snd (Add redis ?b 7 (env0 w_late))) = w_late"
    by (simp add: run_defs w_late_def b_fresh_def)
  from Add_full [OF get rem full] Add_full [OF get' rem' full] same run show ?thesis
    by blast
qed

text \<open>
  C2 as worded fails where it says that the call leaves remaining unchanged: \<open>Add\<close>
  overwrites the cached remaining with the quota read from the store before it tests
  the amount. A second handle on a key whose counter is 4 has a cached remaining of 10
  and leaves the failing \<open>Add(7)\<close> with 6; a handle with a cached remaining of 6 whose
  key has expired leaves the failing \<open>Add(11)\<close> with 10.
\<close>

theorem Add_full_changes_cached_remaining_counterexample:
  "quota (capacity b_fresh) (fst (exec redis (GET (name b_fresh)) w_late)) = Some 6 \<and>
   (6 :: uint) < 7 \<and>
   returned_error (Add redis b_fresh 7 (env0 w_late)) = Some ErrorFull \<and>
   remaining b_fresh = 10 \<and>
   remaining (bucket_after (Add redis b_fresh 7 (env0 w_late))) = 6 \<and>
   remaining (bucket_after (Add redis b_fresh 7 (env0 w_late))) \<noteq> remaining b_fresh \<and>
   returned_error (Add redis (b_fresh\<lparr>remaining := 6\<rparr>) 11
     (env0 \<lparr>wclock = 12200000000, cells = [''k'' \<mapsto> (4, Some 11200000000)]\<rparr>)) =
     Some ErrorFull \<and>
   remaining (bucket_after (Add redis (b_fresh\<lparr>remaining := 6\<rparr>) 11
     (env0 \<lparr>wclock = 12200000000, cells = [''k'' \<mapsto> (4, Some 11200000000)]\<rparr>))) = 10"
  by (simp add: run_defs w_late_def b_fresh_def)

text \<open>
  C3. After \<open>Create\<close> the cached remaining is between 0 and the capacity, and \<open>Add\<close>
  keeps it there (the cached and the returned one), whatever the store answers. When
  \<open>Add\<close> returns no error, remaining is the capacity minus the smaller of the capacity
  and the total \<open>count\<close> that INCRBY has answered. The store counter is never clamped:
  \<open>Create\<close> sends GET and PTTL only, and \<open>Add\<close> sends nothing but GET, PTTL, the INCRBY
  by the whole amount and the PEXPIRE.
\<close>

theorem remaining_within_capacity:
  "(Create st nm cap rt e = (Inr b0, e0) \<longrightarrow>
      0 \<le> remaining b0 \<and> remaining b0 \<le> capacity b0 \<and>
      set (map fst (issued e e0)) \<subseteq> {GET nm, PTTL nm}) \<and>
   (remaining b \<le> capacity b \<longrightarrow>
      0 \<le> remaining (bucket_after (Add st b amount e)) \<and>
      remaining (bucket_after (Add st b amount e)) \<le> capacity (bucket_after (Add st b amount e)) \<and>
      0 \<le> Remaining (returned_state (Add st b amount e)) \<and>
      Remaining (returned_state (Add st b amount e)) \<le>
        Capacity (returned_state (Add st b amount e))) \<and>
   set (map fst (issued e (snd (Add st b amount e)))) \<subseteq>
     {GET (name b), PTTL (name b), INCRBY (name b) amount,
      PEXPIRE (name b) (div_int64 (rate b) millisecond)} \<and>
   (returned_error (Add st b amount e) = None \<longrightarrow>
      (\<exists>count. (INCRBY (name b) amount, Inr count) \<in> set (issued e (snd (Add st b amount e))) \<and>
         remaining (bucket_after (Add st b amount e)) = capacity b - min_uint count (capacity b) \<and>
         unat (remaining (bucket_after (Add st b amount e))) =
           unat (capacity b) - min (unat count) (unat (capacity b))))"
proof -
  have create: "remaining b0 \<le> capacity b0 \<and> set (map fst (issued e e0)) \<subseteq> {GET nm, PTTL nm}"
    if "Create st nm cap rt e = (Inr b0, e0)"
    using that clip_le_capacity [of cap c for c]
    by (auto simp: Create_def call_def issued_def min_uint_commute [of cap]
        split: sum.splits prod.splits if_splits)
  obtain b' err w' tl where a:
    "Add st b amount e = ((b', State b', err), \<lparr>world = w', trace = trace e @ tl\<rparr>)"
    "capacity b' = capacity b"
    "remaining b \<le> capacity b \<longrightarrow> remaining b' \<le> capacity b'"
    "set (map fst tl) \<subseteq>
       {GET (name b), PTTL (name b), INCRBY (name b) amount,
        PEXPIRE (name b) (div_int64 (rate b) millisecond)}"
    "err = None \<longrightarrow>
       (\<exists>count. (INCRBY (name b) amount, Inr count) \<in> set tl \<and>
          remaining b' = capacity b - min_uint count (capacity b))"
    using Add_shape [of st b amount e] by blast
  have add: "bucket_after (Add st b amount e) = b'" "returned_state (Add st b amount e) = State b'"
    "returned_error (Add st b amount e) = err" "issued e (snd (Add st b amount e)) = tl"
    by (simp_all add: a(1) bucket_after_def returned_state_def returned_error_def issued_def)
  show ?thesis
    using create a(2-5) by (auto simp: add State_def unat_clip)
qed

theorem remaining_within_capacity_witness:
  "Create redis ''k'' 10 1000000000 (env0 w_over) =
     (Inr b_over, \<lparr>world = w_over, trace = [(GET ''k'', Inr 15), (PTTL ''k'', Inr 500)]\<rparr>) \<and>
   remaining b_over \<le> capacity b_over \<and>
   remaining (bucket_after (Add redis b_over 0 (env0 w_over))) \<le>
     capacity (bucket_after (Add redis b_over 0 (env0 w_over))) \<and>
   Remaining (returned_state (Add redis b_over 0 (env0 w_over))) \<le>
     Capacity (returned_state (Add redis b_over 0 (env0 w_over))) \<and>
   returned_error (Add redis b_over 0 (env0 w_over)) = None \<and>
   remaining (bucket_after (Add redis b_over 0 (env0 w_over))) = 0 \<and>
   cells (world (snd (Add redis b_over 0 (env0 w_over)))) ''k'' = Some (15, Some 10700000000)"
proof -
  have c: "Create redis ''k'' 10 1000000000 (env0 w_over) =
     (Inr b_over, \<lparr>world = w_over, trace = [(GET ''k'', Inr 15), (PTTL ''k'', Inr 500)]\<rparr>)"
    by (simp add: run_defs w_over_def b_over_def)
  have run: "returned_error (Add redis b_over 0 (env0 w_over)) = None \<and>
     remaining (bucket_after (Add redis b_over 0 (env0 w_over))) = 0 \<and>
     cells (world (snd (Add redis b_over 0 (env0 w_over)))) ''k'' = Some (15, Some 10700000000)"
    by (simp add: run_defs w_over_def b_over_def)
  from c remaining_within_capacity
    [where st = redis and nm = "''k''" and cap = 10 and rt = 1000000000
       and e = "env0 w_over" and ?b0.0 = b_over
       and ?e0.0 = "\<lparr>world = w_over, trace = [(GET ''k'', Inr 15), (PTTL ''k'', Inr 500)]\<rparr>"
       and b = b_over and amount = 0]
  have inv: "remaining b_over \<le> capacity b_over \<and>
     (remaining b_over \<le> capacity b_over \<longrightarrow>
        remaining (bucket_after (Add redis b_over 0 (env0 w_over))) \<le>
          capacity (bucket_after (Add redis b_over 0 (env0 w_over))) \<and>
        Remaining (returned_state (Add redis b_over 0 (env0 w_over))) \<le>
          Capacity (returned_state (Add redis b_over 0 (env0 w_over))))"
    by blast
  from c run inv show ?thesis
    by blast
qed

lemma sint_div_int64: "sint (div_int64 d millisecond) = sint d sdiv 1000000"
proof -
  have b: "- (2 ^ 63) \<le> sint d" "sint d < 2 ^ 63"
    using sint_ge [of d] sint_lt [of d] by simp_all
  have "- (2 ^ 63) \<le> sint d sdiv 1000000 \<and> sint d sdiv 1000000 < 2 ^ 63"
    using b by (auto simp: signed_divide_int_def sgn_if) 
  then show ?thesis
    by (simp add: div_int64_def millisecond_def signed_of_int signed_take_bit_int_eq_self)
qed

lemma whole_milliseconds:
  "sint d mod 1000000 = 0 \<Longrightarrow> sint (div_int64 d millisecond) * 1000000 = sint d"
  by (auto simp: sint_div_int64 signed_divide_int_def sgn_if zmod_zminus1_eq_if
      split: if_splits)

text \<open>
  C6, as the code has it. When the INCRBY has answered a total equal to the amount,
  \<open>Add\<close> issues one PEXPIRE, with the window duration \<open>rate\<close> in whole milliseconds: its
  nanoseconds divided by 1000000 and truncated towards zero, which is \<open>rate\<close> itself
  when \<open>rate\<close> is a whole number of milliseconds. When the total differs from the
  amount, \<open>Add\<close> issues no PEXPIRE.
\<close>

theorem Add_sets_expiry_in_milliseconds:
  assumes get: "exec st (GET (name b)) (world e) = (g, w1)"
      and rem: "quota (capacity b) g = Some r"
      and fits: "amount \<le> r"
      and incr: "exec st (INCRBY (name b) amount) w1 = (Inr count, w2)"
  shows "map fst (filter (is_PEXPIRE \<circ> fst) (issued e (snd (Add st b amount e)))) =
           (if count = amount then [PEXPIRE (name b) (div_int64 (rate b) millisecond)] else []) \<and>
         sint (div_int64 (rate b) millisecond) = sint (rate b) sdiv 1000000 \<and>
         (sint (rate b) mod 1000000 = 0 \<longrightarrow>
            sint (div_int64 (rate b) millisecond) * 1000000 = sint (rate b))"
proof -
  let ?b = "b\<lparr>remaining := r\<rparr>"
  let ?x = "div_int64 (rate b) millisecond"
  let ?e2 = "\<lparr>world = w2, trace = trace e @ [(GET (name b), g), (INCRBY (name b) amount, Inr count)]\<rparr>"
  have fin: "map fst (filter (is_PEXPIRE \<circ> fst) (drop (length (trace e)) (trace (snd (Add_finish st ?b count e'))))) =
     map fst (filter (is_PEXPIRE \<circ> fst) (drop (length (trace e)) (trace e')))"
    if "length (trace e) \<le> length (trace e')" for e' :: "'a env"
    using that
    by (cases rule: updateOldReset_cases [where b = ?b and st = st and e = e'])
       (auto simp: Add_finish_def Let_def)
  have "map fst (filter (is_PEXPIRE \<circ> fst) (issued e (snd (Add st b amount e)))) =
           (if count = amount then [PEXPIRE (name b) ?x] else [])"
  proof (cases "count = amount")
    case False
    then show ?thesis
      using fits incr fin [of ?e2]
      by (simp add: Add_get [OF get rem] Add_admit_def call_def not_less [symmetric] issued_def)
  next
    case True
    obtain p w3 where p: "exec st (PEXPIRE (name b) ?x) w2 = (p, w3)"
      by (cases "exec st (PEXPIRE (name b) ?x) w2")
    let ?e3 = "\<lparr>world = w3, trace = trace e @ [(GET (name b), g), (INCRBY (name b) amount, Inr count), (PEXPIRE (name b) ?x, p)]\<rparr>"
    show ?thesis
      using True fits incr p fin [of ?e3]
      by (cases p)
         (simp_all add: Add_get [OF get rem] Add_admit_def call_def not_less [symmetric] issued_def)
  qed
  then show ?thesis
    using whole_milliseconds [of "rate b"] by (simp add: sint_div_int64)
qed

theorem Add_sets_expiry_in_milliseconds_witness:
  "map fst (filter (is_PEXPIRE \<circ> fst)
     (issued (env0 w_empty) (snd (Add redis b_fresh 4 (env0 w_empty))))) =
     [PEXPIRE ''k'' 1000] \<and>
   sint (1000 :: int64) * 1000000 = sint (rate b_fresh) \<and>
   map fst (filter (is_PEXPIRE \<circ> fst)
     (issued (env0 w_late) (snd (Add redis b_fresh 3 (env0 w_late))))) = [] \<and>
   cells (world (snd (Add redis b_fresh 4 (env0 w_empty)))) ''k'' =
     Some (4, Some (wclock w_empty + sint (rate b_fresh)))"
proof -
  have x: "div_int64 (rate b_fresh) millisecond = 1000" "name b_fresh = ''k''"
    "sint (rate b_fresh) mod 1000000 = 0"
    by (simp_all add: div_int64_def millisecond_def b_fresh_def signed_divide_int_def)
  have g1: "exec redis (GET (name b_fresh)) (world (env0 w_empty)) = (Inl ErrNil, w_empty)"
    by (simp add: redis_def env0_def w_empty_def b_fresh_def live_def)
  have q1: "quota (capacity b_fresh) (Inl ErrNil) = Some 10"
    by (simp add: quota_def b_fresh_def)
  have i1: "exec redis (INCRBY (name b_fresh) 4) w_empty =
      (Inr 4, w_empty\<lparr>cells := [''k'' \<mapsto> (4, None)]\<rparr>)"
    by (simp add: redis_def w_empty_def b_fresh_def live_def)
  have g2: "exec redis (GET (name b_fresh)) (world (env0 w_late)) = (Inr 4, w_late)"
    by (simp add: redis_def env0_def w_late_def b_fresh_def live_def)
  have q2: "quota (capacity b_fresh) (Inr 4) = Some 6"
    by (simp add: quota_def b_fresh_def min_uint_def)
  have i2: "exec redis (INCRBY (name b_fresh) 3) w_late =
      (Inr 7, w_late\<lparr>cells := [''k'' \<mapsto> (7, Some 12100000000)]\<rparr>)"
    by (simp add: redis_def w_late_def b_fresh_def live_def)
  have run: "cells (world (snd (Add redis b_fresh 4 (env0 w_empty)))) ''k'' =
     Some (4, Some (wclock w_empty + sint (rate b_fresh)))"
    by (simp add: run_defs w_empty_def b_fresh_def)
  from Add_sets_expiry_in_milliseconds [OF g1 q1 _ i1] x
  have a: "map fst (filter (is_PEXPIRE \<circ> fst)
       (issued (env0 w_empty) (snd (Add redis b_fresh 4 (env0 w_empty))))) =
       [PEXPIRE ''k'' 1000] \<and>
     sint (1000 :: int64) * 1000000 = sint (rate b_fresh)"
    by simp
  from Add_sets_expiry_in_milliseconds [OF g2 q2 _ i2]
  have b: "map fst (filter (is_PEXPIRE \<circ> fst)
       (issued (env0 w_late) (snd (Add redis b_fresh 3 (env0 w_late))))) = []"
    by simp
  from a b run show ?thesis
    by blast
qed

text \<open>
  C6 as worded fails for a window that is no whole number of milliseconds: with a
  rate of 1.5 ms the first Add sets the expiry of the key to 1 ms.
\<close>

theorem expiry_truncated_counterexample:
  "issued (env0 w_empty) (snd (Add redis b_odd 4 (env0 w_empty))) =
     [(GET ''k'', Inl ErrNil), (INCRBY ''k'' 4, Inr 4), (PEXPIRE ''k'' 1, Inr 1),
      (PTTL ''k'', Inr 1)] \<and>
   sint (1 :: int64) * 1000000 \<noteq> sint (rate b_odd) \<and>
   cells (world (snd (Add redis b_odd 4 (env0 w_empty)))) ''k'' =
     Some (4, Some (wclock w_empty + 1000000)) \<and>
   wclock w_empty + 1000000 \<noteq> wclock w_empty + sint (rate b_odd)"
  by (simp add: run_defs w_empty_def b_odd_def)

lemma Add_finish_swallows:
  assumes "list_all (isl \<circ> snd)
             (filter (is_PTTL \<circ> fst) (drop n (trace (snd (Add_finish st b count e)))))"
      and "n \<le> length (trace e)"
  shows "fst (Add_finish st b count e) = fst (Add_finish_skipping_refresh st b count e)"
    and "reset (fst (fst (Add_finish st b count e))) = reset b"
proof -
  have "fst (Add_finish st b count e) = fst (Add_finish_skipping_refresh st b count e) \<and>
        reset (fst (fst (Add_finish st b count e))) = reset b"
    using assms
    by (cases rule: updateOldReset_cases [where b = b and st = st and e = e])
       (auto simp: Add_finish_def Add_finish_skipping_refresh_def Let_def)
  then show "fst (Add_finish st b count e) = fst (Add_finish_skipping_refresh st b count e)"
    and "reset (fst (fst (Add_finish st b count e))) = reset b"
    by blast+
qed

lemma Add_admit_swallows:
  assumes "list_all (isl \<circ> snd)
             (filter (is_PTTL \<circ> fst) (drop n (trace (snd (Add_admit st b amount e)))))"
      and "n \<le> length (trace e)"
  shows "fst (Add_admit st b amount e) = fst (Add_admit_skipping_refresh st b amount e) \<and>
         reset (fst (fst (Add_admit st b amount e))) = reset b"
proof (cases "remaining b < amount")
  case True
  with assms show ?thesis
    by (cases rule: updateOldReset_cases [where b = b and st = st and e = e])
       (auto simp: Add_admit_def Add_admit_skipping_refresh_def)
next
  case False
  obtain i w2 where i: "exec st (INCRBY (name b) amount) (world e) = (i, w2)"
    by (cases "exec st (INCRBY (name b) amount) (world e)")
  let ?x = "div_int64 (rate b) millisecond"
  show ?thesis
  proof (cases i)
    case (Inl err)
    with False i show ?thesis
      by (simp add: Add_admit_def Add_admit_skipping_refresh_def call_def)
  next
    case (Inr count)
    let ?e2 = "\<lparr>world = w2, trace = trace e @ [(INCRBY (name b) amount, Inr count)]\<rparr>"
    show ?thesis
    proof (cases "count = amount")
      case neq: False
      from assms False i Inr neq
      have "list_all (isl \<circ> snd)
          (filter (is_PTTL \<circ> fst) (drop n (trace (snd (Add_finish st b count ?e2)))))"
        by (simp add: Add_admit_def call_def)
      from Add_finish_swallows [OF this] assms(2)
      have "fst (Add_finish st b count ?e2) = fst (Add_finish_skipping_refresh st b count ?e2)"
        and "reset (fst (fst (Add_finish st b count ?e2))) = reset b"
        by simp_all
      with False i Inr neq show ?thesis
        by (simp add: Add_admit_def Add_admit_skipping_refresh_def call_def
            Add_finish_skipping_refresh_def)
    next
      case eq: True
      obtain p w3 where p: "exec st (PEXPIRE (name b) ?x) w2 = (p, w3)"
        by (cases "exec st (PEXPIRE (name b) ?x) w2")
      let ?e3 = "\<lparr>world = w3, trace = trace e @ [(INCRBY (name b) amount, Inr count),
                   (PEXPIRE (name b) ?x, p)]\<rparr>"
      show ?thesis
      proof (cases p)
        case (Inl err)
        with False i Inr eq p show ?thesis
          by (simp add: Add_admit_def Add_admit_skipping_refresh_def call_def)
      next
        case ok: (Inr one)
        from assms False i Inr eq p ok
        have "list_all (isl \<circ> snd)
            (filter (is_PTTL \<circ> fst) (drop n (trace (snd (Add_finish st b count ?e3)))))"
          by (simp add: Add_admit_def call_def)
        from Add_finish_swallows [OF this] assms(2)
        have "fst (Add_finish st b count ?e3) = fst (Add_finish_skipping_refresh st b count ?e3)"
          and "reset (fst (fst (Add_finish st b count ?e3))) = reset b"
          by simp_all
        with False i Inr eq p ok show ?thesis
          by (simp add: Add_admit_def Add_admit_skipping_refresh_def call_def
              Add_finish_skipping_refresh_def)
      qed
    qed
  qed
qed

text \<open>
  C8. When every PTTL that \<open>Add\<close> has issued failed (\<open>Add\<close> issues one in the refresh
  of reset only), \<open>Add\<close> returns what it returns with the two calls of the refresh left
  out, the same bucket, state and error, and reset keeps its value. \<open>Create\<close> never
  calls the refresh.
\<close>

theorem failed_refresh_is_swallowed:
  assumes "list_all (isl \<circ> snd)
             (filter (is_PTTL \<circ> fst) (issued e (snd (Add st b amount e))))"
  shows "fst (Add st b amount e) = fst (Add_skipping_refresh st b amount e) \<and>
         reset (bucket_after (Add st b amount e)) = reset b"
proof -
  obtain g w1 where g: "exec st (GET (name b)) (world e) = (g, w1)"
    by (cases "exec st (GET (name b)) (world e)")
  let ?e1 = "\<lparr>world = w1, trace = trace e @ [(GET (name b), g)]\<rparr>"
  have len: "length (trace e) \<le> length (trace ?e1)"
    by simp
  show ?thesis
  proof (cases "quota (capacity b) g")
    case None
    with g show ?thesis
      by (auto simp: Add_def Add_skipping_refresh_def call_def quota_def bucket_after_def
          split: sum.splits if_splits)
  next
    case (Some r)
    have skip: "Add_skipping_refresh st b amount e =
        Add_admit_skipping_refresh st (b\<lparr>remaining := r\<rparr>) amount ?e1"
      using g Some
      by (auto simp: Add_skipping_refresh_def call_def quota_def split: sum.splits if_splits)
    from assms have "list_all (isl \<circ> snd) (filter (is_PTTL \<circ> fst)
        (drop (length (trace e)) (trace (snd (Add_admit st (b\<lparr>remaining := r\<rparr>) amount ?e1)))))"
      by (simp add: Add_get [OF g Some] issued_def)
    from Add_admit_swallows [OF this len]
    have "fst (Add_admit st (b\<lparr>remaining := r\<rparr>) amount ?e1) =
          fst (Add_admit_skipping_refresh st (b\<lparr>remaining := r\<rparr>) amount ?e1)"
      and "reset (fst (fst (Add_admit st (b\<lparr>remaining := r\<rparr>) amount ?e1))) =
           reset (b\<lparr>remaining := r\<rparr>)"
      by blast+
    then show ?thesis
      by (simp add: Add_get [OF g Some] skip bucket_after_def)
  qed
qed

theorem failed_refresh_is_swallowed_witness:
  "issued (env0 w_empty) (snd (Add (failing is_PTTL redis) b_old 4 (env0 w_empty))) =
     [(GET ''k'', Inl ErrNil), (INCRBY ''k'' 4, Inr 4), (PEXPIRE ''k'' 1000, Inr 1),
      (PTTL ''k'', Inl (StoreError ''connection lost''))] \<and>
   fst (Add (failing is_PTTL redis) b_old 4 (env0 w_empty)) =
     fst (Add_skipping_refresh (failing is_PTTL redis) b_old 4 (env0 w_empty)) \<and>
   fst (Add (failing is_PTTL redis) b_old 4 (env0 w_empty)) =
     (b_old\<lparr>remaining := 6\<rparr>, \<lparr>Capacity = 10, Remaining = 6, Reset = 9000000000\<rparr>, None) \<and>
   reset (bucket_after (Add (failing is_PTTL redis) b_old 4 (env0 w_empty))) = reset b_old"
proof -
  have run: "issued (env0 w_empty) (snd (Add (failing is_PTTL redis) b_old 4 (env0 w_empty))) =
     [(GET ''k'', Inl ErrNil), (INCRBY ''k'' 4, Inr 4), (PEXPIRE ''k'' 1000, Inr 1),
      (PTTL ''k'', Inl (StoreError ''connection lost''))]"
    by (simp add: run_defs w_empty_def b_old_def)
  have val: "fst (Add (failing is_PTTL redis) b_old 4 (env0 w_empty)) =
     (b_old\<lparr>remaining := 6\<rparr>, \<lparr>Capacity = 10, Remaining = 6, Reset = 9000000000\<rparr>, None)"
    by (simp add: run_defs w_empty_def b_old_def)
  have hyp: "list_all (isl \<circ> snd) (filter (is_PTTL \<circ> fst)
      (issued (env0 w_empty) (snd (Add (failing is_PTTL redis) b_old 4 (env0 w_empty)))))"
    by (simp add: run)
  from failed_refresh_is_swallowed [OF hyp] run val show ?thesis
    by blast
qed

text \<open>
  C9. When the INCRBY succeeds with a total equal to the amount and the PEXPIRE then
  fails, \<open>Add\<close> returns the error of the PEXPIRE with a state whose remaining is \<open>r\<close>,
  the quota computed from the GET before the increment; the trace shows the INCRBY
  answered by the store before that.
\<close>

theorem Add_expire_fails:
  assumes get: "exec st (GET (name b)) (world e) = (g, w1)"
      and rem: "quota (capacity b) g = Some r"
      and fits: "amount \<le> r"
      and incr: "exec st (INCRBY (name b) amount) w1 = (Inr amount, w2)"
      and expire: "exec st (PEXPIRE (name b) (div_int64 (rate b) millisecond)) w2 = (Inl err, w3)"
  shows "Add st b amount e =
           ((b\<lparr>remaining := r\<rparr>,
             \<lparr>Capacity = capacity b, Remaining = r, Reset = reset b\<rparr>, Some err),
            \<lparr>world = w3,
              trace = trace e @ [(GET (name b), g), (INCRBY (name b) amount, Inr amount),
                (PEXPIRE (name b) (div_int64 (rate b) millisecond), Inl err)]\<rparr>)"
  using fits incr expire
  by (simp add: Add_get [OF get rem] Add_admit_def call_def State_def not_less [symmetric])

theorem Add_expire_fails_witness:
  "Add (failing is_PEXPIRE redis) b_fresh 4 (env0 w_empty) =
     ((b_fresh, \<lparr>Capacity = 10, Remaining = 10, Reset = 11200000000\<rparr>,
       Some (StoreError ''connection lost'')),
      \<lparr>world = w_empty\<lparr>cells := [''k'' \<mapsto> (4, None)]\<rparr>,
        trace = [(GET ''k'', Inl ErrNil), (INCRBY ''k'' 4, Inr 4),
          (PEXPIRE ''k'' 1000, Inl (StoreError ''connection lost''))]\<rparr>)"
proof -
  have x: "div_int64 (rate b_fresh) millisecond = 1000" "name b_fresh = ''k''"
    "capacity b_fresh = 10" "reset b_fresh = 11200000000" "b_fresh\<lparr>remaining := 10\<rparr> = b_fresh"
    by (simp_all add: div_int64_def millisecond_def b_fresh_def signed_divide_int_def)
  have get: "exec (failing is_PEXPIRE redis) (GET (name b_fresh)) (world (env0 w_empty)) =
      (Inl ErrNil, w_empty)"
    by (simp add: failing_def redis_def env0_def w_empty_def b_fresh_def live_def)
  have rem: "quota (capacity b_fresh) (Inl ErrNil) = Some 10"
    by (simp add: quota_def b_fresh_def)
  have fits: "(4 :: uint) \<le> 10"
    by simp
  have incr: "exec (failing is_PEXPIRE redis) (INCRBY (name b_fresh) 4) w_empty =
      (Inr 4, w_empty\<lparr>cells := [''k'' \<mapsto> (4, None)]\<rparr>)"
    by (simp add: failing_def redis_def w_empty_def b_fresh_def live_def)
  have expire: "exec (failing is_PEXPIRE redis)
      (PEXPIRE (name b_fresh) (div_int64 (rate b_fresh) millisecond))
      (w_empty\<lparr>cells := [''k'' \<mapsto> (4, None)]\<rparr>) =
      (Inl (StoreError ''connection lost''), w_empty\<lparr>cells := [''k'' \<mapsto> (4, None)]\<rparr>)"
    by (simp add: failing_def)
  from Add_expire_fails [OF get rem fits incr expire] show ?thesis
    by (simp add: x env0_def)
qed

subsection \<open>A sequence of Adds within one window\<close>


lemma unat_of_nat64: "n \<le> unat (cap :: uint) \<Longrightarrow> unat (of_nat n :: uint) = n"
proof -
  assume "n \<le> unat cap"
  moreover have "unat cap < 2 ^ 64" using unsigned_less [of cap] by simp
  ultimately have "n < 2 ^ 64" by simp
  then show ?thesis by (simp add: unat_of_nat)
qed

lemma min_uint_of_nat: "n \<le> unat (cap :: uint) \<Longrightarrow> min_uint (of_nat n) cap = of_nat n"
  by (auto simp: min_uint_def word_less_nat_alt unat_of_nat64 word_unat_eq_iff)

lemma unat_sub_of_nat: "n \<le> unat (cap :: uint) \<Longrightarrow> unat (cap - of_nat n) = unat cap - n"
  by (simp add: unat_sub word_le_nat_alt unat_of_nat64)

lemma redis_refresh:
  "\<exists>t x tl. updateOldReset redis b e =
     ((b\<lparr>reset := t\<rparr>, x), \<lparr>world = world e, trace = trace e @ tl\<rparr>)"
proof (cases rule: updateOldReset_cases [where b = b and st = redis and e = e])
  case skip
  then have "updateOldReset redis b e =
      ((b\<lparr>reset := reset b\<rparr>, None), \<lparr>world = world e, trace = trace e @ []\<rparr>)"
    by simp
  then show ?thesis by blast
next
  case (fail err w')
  then have "w' = world e"
    by (auto simp: redis_def split: option.splits prod.splits)
  with fail have "updateOldReset redis b e =
      ((b\<lparr>reset := reset b\<rparr>, Some err),
       \<lparr>world = world e, trace = trace e @ [(PTTL (name b), Inl err)]\<rparr>)"
    by simp
  then show ?thesis by blast
next
  case (ok ttl w')
  then have "w' = world e"
    by (auto simp: redis_def split: option.splits prod.splits)
  with ok show ?thesis by blast
qed

lemma redis_finish:
  "\<exists>t tr. Add_finish redis b count e =
     ((b\<lparr>reset := t, remaining := capacity b - min_uint count (capacity b)\<rparr>,
       \<lparr>Capacity = capacity b, Remaining = capacity b - min_uint count (capacity b),
         Reset = t\<rparr>, None),
      \<lparr>world = world e, trace = tr\<rparr>)"
proof -
  obtain t x tl where "updateOldReset redis b e =
     ((b\<lparr>reset := t\<rparr>, x), \<lparr>world = world e, trace = trace e @ tl\<rparr>)"
    using redis_refresh [of b e] by blast
  then show ?thesis
    by (simp add: Add_finish_def State_def)
qed


lemma min_uint_self: "a \<le> cap \<Longrightarrow> min_uint a cap = a"
  by (auto simp: min_uint_def)

lemma Add_on_absent_key:
  assumes absent: "live (world e) (name b) = None"
      and fits: "a \<le> capacity b"
  shows "\<exists>t tr. Add redis b a e =
     ((b\<lparr>reset := t, remaining := capacity b - a\<rparr>,
       \<lparr>Capacity = capacity b, Remaining = capacity b - a, Reset = t\<rparr>, None),
      \<lparr>world = (world e)\<lparr>cells := (cells (world e))
                 (name b \<mapsto> (unat a, Some (wclock (world e) + window (rate b))))\<rparr>,
        trace = tr\<rparr>)"
proof -
  let ?k = "name b"
  let ?b = "b\<lparr>remaining := capacity b\<rparr>"
  let ?x = "div_int64 (rate b) millisecond"
  let ?w2 = "(world e)\<lparr>cells := (cells (world e))(?k \<mapsto> (unat a, None))\<rparr>"
  let ?w3 = "(world e)\<lparr>cells := (cells (world e))
                 (?k \<mapsto> (unat a, Some (wclock (world e) + window (rate b))))\<rparr>"
  let ?e3 = "\<lparr>world = ?w3, trace = trace e @ [(GET ?k, Inl ErrNil), (INCRBY ?k a, Inr a),
     (PEXPIRE ?k ?x, Inr 1)]\<rparr>"
  have small: "unat a < 2 ^ 64"
    using unsigned_less [of a] by simp
  have get: "exec redis (GET ?k) (world e) = (Inl ErrNil, world e)"
    using absent by (simp add: redis_def)
  have q: "quota (capacity b) (Inl ErrNil) = Some (capacity b)"
    by (simp add: quota_def)
  have incr: "exec redis (INCRBY ?k a) (world e) = (Inr a, ?w2)"
    using absent small by (simp add: redis_def)
  have expire: "exec redis (PEXPIRE ?k ?x) ?w2 = (Inr 1, ?w3)"
    by (simp add: redis_def live_def window_def)
  have "Add redis b a e = Add_finish redis ?b a ?e3"
    using fits incr expire
    by (simp add: Add_get [OF get q] Add_admit_def call_def not_less [symmetric])
  moreover obtain t tr where "Add_finish redis ?b a ?e3 =
     ((?b\<lparr>reset := t, remaining := capacity ?b - min_uint a (capacity ?b)\<rparr>,
       \<lparr>Capacity = capacity ?b, Remaining = capacity ?b - min_uint a (capacity ?b),
         Reset = t\<rparr>, None),
      \<lparr>world = world ?e3, trace = tr\<rparr>)"
    using redis_finish [of ?b a ?e3] by blast
  ultimately show ?thesis
    using fits by (simp add: min_uint_self)
qed

lemma Add_on_live_key:
  assumes live: "cells (world e) (name b) = Some (v, Some D)"
      and before: "wclock (world e) < D"
      and fits: "v + unat a \<le> unat (capacity b)"
  shows "\<exists>t tr D'. Add redis b a e =
     ((b\<lparr>reset := t, remaining := capacity b - of_nat (v + unat a)\<rparr>,
       \<lparr>Capacity = capacity b, Remaining = capacity b - of_nat (v + unat a), Reset = t\<rparr>,
       None),
      \<lparr>world = (world e)\<lparr>cells := (cells (world e))(name b \<mapsto> (v + unat a, Some D'))\<rparr>,
        trace = tr\<rparr>) \<and>
     (D' = D \<or> D' = wclock (world e) + window (rate b))"
proof -
  let ?k = "name b"
  let ?cap = "capacity b"
  let ?r = "?cap - of_nat v"
  let ?b = "b\<lparr>remaining := ?r\<rparr>"
  let ?x = "div_int64 (rate b) millisecond"
  let ?n = "of_nat (v + unat a) :: uint"
  let ?w2 = "(world e)\<lparr>cells := (cells (world e))(?k \<mapsto> (v + unat a, Some D))\<rparr>"
  let ?w3 = "(world e)\<lparr>cells := (cells (world e))
                 (?k \<mapsto> (v + unat a, Some (wclock (world e) + window (rate b))))\<rparr>"
  let ?e2 = "\<lparr>world = ?w2, trace = trace e @ [(GET ?k, Inr (of_nat v)), (INCRBY ?k a, Inr ?n)]\<rparr>"
  let ?e3 = "\<lparr>world = ?w3, trace = trace e @ [(GET ?k, Inr (of_nat v)), (INCRBY ?k a, Inr ?n),
     (PEXPIRE ?k ?x, Inr 1)]\<rparr>"
  have v: "v \<le> unat ?cap" and n: "v + unat a \<le> unat ?cap"
    using fits by simp_all
  have "unat ?cap < 2 ^ 64"
    using unsigned_less [of ?cap] by simp
  with fits have small: "v < 2 ^ 64" "v + unat a < 2 ^ 64"
    by simp_all
  have lv: "live (world e) ?k = Some (v, Some D)"
    using live before by (simp add: live_def)
  have get: "exec redis (GET ?k) (world e) = (Inr (of_nat v), world e)"
    using lv small by (simp add: redis_def)
  have q: "quota ?cap (Inr (of_nat v)) = Some ?r"
    by (simp add: quota_def min_uint_of_nat [OF v])
  have admit: "\<not> ?r < a"
    using fits by (simp add: word_less_nat_alt unat_sub_of_nat [OF v])
  have incr: "exec redis (INCRBY ?k a) (world e) = (Inr ?n, ?w2)"
    using lv small by (simp add: redis_def)
  have expire: "exec redis (PEXPIRE ?k ?x) ?w2 = (Inr 1, ?w3)"
    using before by (simp add: redis_def live_def window_def)
  have clip: "?cap - min_uint ?n ?cap = ?cap - ?n"
    by (simp only: min_uint_of_nat [OF n])
  show ?thesis
  proof (cases "?n = a")
    case True
    have "Add redis b a e = Add_finish redis ?b ?n ?e3"
      using admit incr expire True
      by (simp add: Add_get [OF get q] Add_admit_def call_def)
    moreover obtain t tr where "Add_finish redis ?b ?n ?e3 =
       ((?b\<lparr>reset := t, remaining := capacity ?b - min_uint ?n (capacity ?b)\<rparr>,
         \<lparr>Capacity = capacity ?b, Remaining = capacity ?b - min_uint ?n (capacity ?b),
           Reset = t\<rparr>, None),
        \<lparr>world = world ?e3, trace = tr\<rparr>)"
      using redis_finish [of ?b ?n ?e3] by blast
    ultimately have "Add redis b a e =
     ((b\<lparr>reset := t, remaining := ?cap - ?n\<rparr>,
       \<lparr>Capacity = ?cap, Remaining = ?cap - ?n, Reset = t\<rparr>, None),
      \<lparr>world = ?w3, trace = tr\<rparr>)"
      using clip by simp
    then show ?thesis by blast
  next
    case False
    have "Add redis b a e = Add_finish redis ?b ?n ?e2"
      using admit incr False
      by (simp add: Add_get [OF get q] Add_admit_def call_def)
    moreover obtain t tr where "Add_finish redis ?b ?n ?e2 =
       ((?b\<lparr>reset := t, remaining := capacity ?b - min_uint ?n (capacity ?b)\<rparr>,
         \<lparr>Capacity = capacity ?b, Remaining = capacity ?b - min_uint ?n (capacity ?b),
           Reset = t\<rparr>, None),
        \<lparr>world = world ?e2, trace = tr\<rparr>)"
      using redis_finish [of ?b ?n ?e2] by blast
    ultimately have "Add redis b a e =
     ((b\<lparr>reset := t, remaining := ?cap - ?n\<rparr>,
       \<lparr>Capacity = ?cap, Remaining = ?cap - ?n, Reset = t\<rparr>, None),
      \<lparr>world = ?w2, trace = tr\<rparr>)"
      using clip by simp
    then show ?thesis by blast
  qed
qed


lemma amounts_Cons: "amounts ((d, a) # xs) = unat a + amounts xs"
  by (simp add: amounts_def)

lemma delays_Cons: "delays ((d, a) # xs) = int d + delays xs"
  by (simp add: delays_def)

lemma delays_nonneg: "0 \<le> delays xs"
  by (simp add: delays_def)

lemma Adds_on_live_key:
  assumes "cells (world e) (name b) = Some (v, Some D)"
      and "wclock (world e) + delays xs < D"
      and "delays xs < window (rate b)"
      and "v + amounts xs \<le> unat (capacity b)"
      and "remaining b = capacity b - of_nat v"
  shows "\<exists>b' rs e'. Adds redis b xs e = ((b', rs), e') \<and>
           list_all (\<lambda>r. snd r = None) rs \<and> length rs = length xs \<and>
           capacity b' = capacity b \<and>
           remaining b' = capacity b - of_nat (v + amounts xs) \<and>
           (xs \<noteq> [] \<longrightarrow> Remaining (fst (last rs)) = remaining b')"
  using assms
proof (induction xs arbitrary: b e v D)
  case Nil
  then show ?case by (simp add: amounts_def)
next
  case (Cons x xs)
  obtain d a where x: "x = (d, a)" by (cases x)
  let ?e = "elapse d e"
  have cells: "cells (world ?e) (name b) = Some (v, Some D)"
    and clock: "wclock (world ?e) = wclock (world e) + int d"
    using Cons.prems(1) by (simp_all add: elapse_def)
  have before: "wclock (world ?e) < D"
    using Cons.prems(2) delays_nonneg [of xs] by (simp add: x delays_Cons clock)
  have fits: "v + unat a \<le> unat (capacity b)"
    using Cons.prems(4) by (simp add: x amounts_Cons)
  obtain t tr D' where add: "Add redis b a ?e =
     ((b\<lparr>reset := t, remaining := capacity b - of_nat (v + unat a)\<rparr>,
       \<lparr>Capacity = capacity b, Remaining = capacity b - of_nat (v + unat a), Reset = t\<rparr>,
       None),
      \<lparr>world = (world ?e)\<lparr>cells := (cells (world ?e))(name b \<mapsto> (v + unat a, Some D'))\<rparr>,
        trace = tr\<rparr>)"
    and D': "D' = D \<or> D' = wclock (world ?e) + window (rate b)"
    using Add_on_live_key [OF cells before fits] by blast
  let ?bn = "b\<lparr>reset := t, remaining := capacity b - of_nat (v + unat a)\<rparr>"
  let ?en = "\<lparr>world = (world ?e)\<lparr>cells := (cells (world ?e))(name b \<mapsto> (v + unat a, Some D'))\<rparr>,
        trace = tr\<rparr>"
  have 1: "cells (world ?en) (name ?bn) = Some (v + unat a, Some D')"
    by simp
  have 2: "wclock (world ?en) + delays xs < D'"
    using D' Cons.prems(2,3) by (auto simp: x delays_Cons clock)
  have 3: "delays xs < window (rate ?bn)"
    using Cons.prems(3) by (simp add: x delays_Cons)
  have 4: "v + unat a + amounts xs \<le> unat (capacity ?bn)"
    using Cons.prems(4) by (simp add: x amounts_Cons)
  have 5: "remaining ?bn = capacity ?bn - of_nat (v + unat a)"
    by simp
  obtain b' rs e' where rest: "Adds redis ?bn xs ?en = ((b', rs), e')"
    and ok: "list_all (\<lambda>r. snd r = None) rs" "length rs = length xs"
      "capacity b' = capacity ?bn"
      "remaining b' = capacity ?bn - of_nat (v + unat a + amounts xs)"
      "xs \<noteq> [] \<longrightarrow> Remaining (fst (last rs)) = remaining b'"
    using Cons.IH [OF 1 2 3 4 5] by blast
  have nil: "xs = [] \<Longrightarrow> b' = ?bn \<and> rs = []"
    using rest by simp
  let ?s = "\<lparr>Capacity = capacity b, Remaining = capacity b - of_nat (v + unat a), Reset = t\<rparr>"
  have "Adds redis b (x # xs) e = ((b', (?s, None) # rs), e')"
    using add rest by (simp add: x)
  moreover have "Remaining (fst (last ((?s, None) # rs))) = remaining b'"
  proof (cases "xs = []")
    case True
    with nil show ?thesis by simp
  next
    case False
    with ok(2) have "rs \<noteq> []" by auto
    with ok(5) False show ?thesis by simp
  qed
  ultimately show ?case
    using ok by (simp add: x amounts_Cons add.assoc)
qed


lemma live_elapse: "live w k = None \<Longrightarrow> live (w\<lparr>wclock := wclock w + int d\<rparr>) k = None"
  by (auto simp: live_def split: option.splits if_splits)

text \<open>
  C1. On a store where the key is absent, \<open>Create\<close> followed by any sequence of \<open>Add\<close>
  calls whose amounts sum to at most the capacity, all within one window (the time
  from the first call to the last is less than the expiry the first call sets on the
  key), has every \<open>Add\<close> return no error, and the remaining of the bucket after the
  last call, which is also the remaining the last call returns, is the capacity minus
  the sum of the amounts. The store is the one above, used by this caller alone.
\<close>

theorem Adds_within_capacity:
  assumes absent: "live (world e) nm = None"
      and sum: "amounts steps \<le> unat cap"
      and one_window: "delays (tl steps) < window rt"
  shows "\<exists>b0 e0 b' rs e'.
           Create redis nm cap rt e = (Inr b0, e0) \<and>
           Adds redis b0 steps e0 = ((b', rs), e') \<and>
           length rs = length steps \<and>
           list_all (\<lambda>r. snd r = None) rs \<and>
           remaining b' = cap - of_nat (amounts steps) \<and>
           unat (remaining b') = unat cap - amounts steps \<and>
           (steps \<noteq> [] \<longrightarrow> Remaining (fst (last rs)) = remaining b')"
proof -
  let ?bz = "\<lparr>name = nm, capacity = cap, remaining = cap,
              reset = wclock (world e) + sint rt, rate = rt\<rparr>"
  let ?ez = "\<lparr>world = world e, trace = trace e @ [(GET nm, Inl ErrNil)]\<rparr>"
  have create: "Create redis nm cap rt e = (Inr ?bz, ?ez)"
    using absent by (simp add: Create_def call_def redis_def time_Add_def)
  have "\<exists>b' rs e'. Adds redis ?bz steps ?ez = ((b', rs), e') \<and>
           length rs = length steps \<and> list_all (\<lambda>r. snd r = None) rs \<and>
           remaining b' = cap - of_nat (amounts steps) \<and>
           (steps \<noteq> [] \<longrightarrow> Remaining (fst (last rs)) = remaining b')"
  proof (cases steps)
    case Nil
    then show ?thesis by (simp add: amounts_def)
  next
    case (Cons x xs)
    obtain d a where x: "x = (d, a)" by (cases x)
    let ?e = "elapse d ?ez"
    have gone: "live (world ?e) (name ?bz) = None"
      using live_elapse [OF absent] by (simp add: elapse_def)
    have "unat a \<le> unat cap"
      using sum by (simp add: Cons x amounts_Cons)
    then have fits: "a \<le> capacity ?bz"
      by (simp add: word_le_nat_alt)
    obtain t tr where add: "Add redis ?bz a ?e =
       ((?bz\<lparr>reset := t, remaining := capacity ?bz - a\<rparr>,
         \<lparr>Capacity = capacity ?bz, Remaining = capacity ?bz - a, Reset = t\<rparr>, None),
        \<lparr>world = (world ?e)\<lparr>cells := (cells (world ?e))
                   (name ?bz \<mapsto> (unat a, Some (wclock (world ?e) + window (rate ?bz))))\<rparr>,
          trace = tr\<rparr>)"
      using Add_on_absent_key [OF gone fits] by blast
    let ?bn = "?bz\<lparr>reset := t, remaining := capacity ?bz - a\<rparr>"
    let ?en = "\<lparr>world = (world ?e)\<lparr>cells := (cells (world ?e))
                   (name ?bz \<mapsto> (unat a, Some (wclock (world ?e) + window (rate ?bz))))\<rparr>,
          trace = tr\<rparr>"
    have 1: "cells (world ?en) (name ?bn) =
        Some (unat a, Some (wclock (world ?e) + window (rate ?bz)))"
      by simp
    have 2: "wclock (world ?en) + delays xs < wclock (world ?e) + window (rate ?bz)"
      using one_window by (simp add: Cons)
    have 3: "delays xs < window (rate ?bn)"
      using one_window by (simp add: Cons)
    have 4: "unat a + amounts xs \<le> unat (capacity ?bn)"
      using sum by (simp add: Cons x amounts_Cons)
    have 5: "remaining ?bn = capacity ?bn - of_nat (unat a)"
      by simp
    obtain b' rs e' where rest: "Adds redis ?bn xs ?en = ((b', rs), e')"
      and ok: "list_all (\<lambda>r. snd r = None) rs" "length rs = length xs"
        "remaining b' = capacity ?bn - of_nat (unat a + amounts xs)"
        "xs \<noteq> [] \<longrightarrow> Remaining (fst (last rs)) = remaining b'"
      using Adds_on_live_key [OF 1 2 3 4 5] by blast
    have nil: "xs = [] \<Longrightarrow> b' = ?bn \<and> rs = []"
      using rest by simp
    let ?s = "\<lparr>Capacity = cap, Remaining = cap - a, Reset = t\<rparr>"
    have run: "Adds redis ?bz steps ?ez = ((b', (?s, None) # rs), e')"
      using add rest by (simp add: Cons x)
    have last: "Remaining (fst (last ((?s, None) # rs))) = remaining b'"
    proof (cases "xs = []")
      case True
      with nil show ?thesis by simp
    next
      case False
      with ok(2) have "rs \<noteq> []" by auto
      with ok(4) False show ?thesis by simp
    qed
    have "remaining b' = cap - of_nat (amounts steps)"
      using ok(3) by (simp add: Cons x amounts_Cons)
    with run last ok(1,2) show ?thesis
      by (simp add: Cons)
  qed
  then obtain b' rs e' where r: "Adds redis ?bz steps ?ez = ((b', rs), e')"
    "length rs = length steps" "list_all (\<lambda>r. snd r = None) rs"
    "remaining b' = cap - of_nat (amounts steps)"
    "steps \<noteq> [] \<longrightarrow> Remaining (fst (last rs)) = remaining b'"
    by blast
  have "unat (remaining b') = unat cap - amounts steps"
    by (simp add: r(4) unat_sub_of_nat [OF sum])
  with create r show ?thesis
    by blast
qed

theorem Adds_within_capacity_witness:
  "live (world (env0 w_empty)) ''k'' = None \<and>
   amounts [(0, 4), (300000000, 6)] \<le> unat (10 :: uint) \<and>
   delays (tl [(0, 4), (300000000, 6 :: uint)]) < window 1000000000 \<and>
   Create redis ''k'' 10 1000000000 (env0 w_empty) =
     (Inr b_fresh, \<lparr>world = w_empty, trace = [(GET ''k'', Inl ErrNil)]\<rparr>) \<and>
   fst (Adds redis b_fresh [(0, 4), (300000000, 6)]
         \<lparr>world = w_empty, trace = [(GET ''k'', Inl ErrNil)]\<rparr>) =
     (b_fresh\<lparr>remaining := 0\<rparr>,
      [(\<lparr>Capacity = 10, Remaining = 6, Reset = 11200000000\<rparr>, None),
       (\<lparr>Capacity = 10, Remaining = 0, Reset = 11200000000\<rparr>, None)])"
proof -
  have h1: "live (world (env0 w_empty)) ''k'' = None"
    by (simp add: env0_def w_empty_def live_def)
  have h2: "amounts [(0, 4), (300000000, 6)] \<le> unat (10 :: uint)"
    by (simp add: amounts_def)
  have h3: "delays (tl [(0, 4), (300000000, 6 :: uint)]) < window 1000000000"
    by (simp add: delays_def window_def div_int64_def millisecond_def signed_divide_int_def)
  have c: "Create redis ''k'' 10 1000000000 (env0 w_empty) =
     (Inr b_fresh, \<lparr>world = w_empty, trace = [(GET ''k'', Inl ErrNil)]\<rparr>)"
    by (simp add: run_defs w_empty_def b_fresh_def)
  from Adds_within_capacity [OF h1 h2 h3]
  obtain b' rs e' where r: "Adds redis b_fresh [(0, 4), (300000000, 6)]
      \<lparr>world = w_empty, trace = [(GET ''k'', Inl ErrNil)]\<rparr> = ((b', rs), e')"
    "list_all (\<lambda>r. snd r = None) rs" "remaining b' = 10 - of_nat (amounts [(0, 4), (300000000, 6)])"
    unfolding c by blast
  have v: "fst (Adds redis b_fresh [(0, 4), (300000000, 6)]
         \<lparr>world = w_empty, trace = [(GET ''k'', Inl ErrNil)]\<rparr>) =
     (b_fresh\<lparr>remaining := 0\<rparr>,
      [(\<lparr>Capacity = 10, Remaining = 6, Reset = 11200000000\<rparr>, None),
       (\<lparr>Capacity = 10, Remaining = 0, Reset = 11200000000\<rparr>, None)])"
    by (simp add: run_defs elapse_def w_empty_def b_fresh_def)
  from h1 h2 h3 c v r show ?thesis
    by blast
qed

end
